theory Spec2Isabelle
  imports Complex_Main "HOL-Library.Sublist"
begin

section \<open>Strings\<close>

text \<open>
  A JavaScript string is a sequence of UTF-16 code units. A code unit is kept as a natural
  number (no arithmetic on code units is done, so nothing wraps); \<open>length\<close> is then the
  \<^verbatim>\<open>.length\<close> of the string. ASCII literals of the source are written \<open>ascii ''...''\<close>,
  the Thai literals as their code units.
\<close>

type_synonym jschar = nat
type_synonym jsstring = "jschar list"

definition ascii :: "string \<Rightarrow> jsstring" where
  "ascii s = map of_char s"

text \<open>The character class \<^verbatim>\<open>[a-zA-Z0-9]\<close>.\<close>

definition alnum :: "jschar \<Rightarrow> bool" where
  "alnum c = ((97 \<le> c \<and> c \<le> 122) \<or> (65 \<le> c \<and> c \<le> 90) \<or> (48 \<le> c \<and> c \<le> 57))"

section \<open>Errors\<close>

text \<open>
  Every \<^verbatim>\<open>throw\<close> of the source is a constructor; the errors that the runtime, \<^verbatim>\<open>fetch\<close>
  or the store raise carry the message they were raised with.
\<close>

datatype persist_kind = Validation | DuplicateKey | StoreFault

datatype error =
    InvalidVoucherFormat
  | DuplicateVoucher
  | ConfigurationError
  | UpstreamTimeout
  | ApiError nat jsstring
  | UpstreamRejected jsstring
  | InvalidAmount
  | UpstreamUnavailable jsstring
  | TypeError jsstring
  | PersistenceFailure persist_kind jsstring

definition MSG_INVALID_LINK :: jsstring where
  "MSG_INVALID_LINK =
     [0xE23, 0xE39, 0xE1B, 0xE41, 0xE1A, 0xE1A, 0xE25, 0xE34, 0xE07, 0xE01, 0xE4C, 0xE44,
      0xE21, 0xE48, 0xE16, 0xE39, 0xE01, 0xE15, 0xE49, 0xE2D, 0xE07]"

definition MSG_DUPLICATE :: jsstring where
  "MSG_DUPLICATE =
     [0xE25, 0xE34, 0xE07, 0xE01, 0xE4C, 0xE19, 0xE35, 0xE49, 0xE16, 0xE39, 0xE01, 0xE43,
      0xE0A, 0xE49, 0xE07, 0xE32, 0xE19, 0xE44, 0xE1B, 0xE41, 0xE25, 0xE49, 0xE27]"

definition MSG_CONFIG :: jsstring where
  "MSG_CONFIG =
     [0xE01, 0xE23, 0xE38, 0xE13, 0xE32, 0xE15, 0xE31, 0xE49, 0xE07, 0xE04, 0xE48, 0xE32]
     @ ascii '' TRUEMONEY_MOBILE '' @ [0xE43, 0xE19] @ ascii '' environment variables''"

definition MSG_TIMEOUT :: jsstring where
  "MSG_TIMEOUT =
     [0xE01, 0xE32, 0xE23, 0xE40, 0xE0A, 0xE37, 0xE48, 0xE2D, 0xE21, 0xE15, 0xE48, 0xE2D]
     @ ascii '' API '' @
     [0xE2B, 0xE21, 0xE14, 0xE40, 0xE27, 0xE25, 0xE32, 32, 0xE01, 0xE23, 0xE38, 0xE13, 0xE32,
      0xE25, 0xE2D, 0xE07, 0xE43, 0xE2B, 0xE21, 0xE48, 0xE2D, 0xE35, 0xE01, 0xE04, 0xE23,
      0xE31, 0xE49, 0xE07]"

definition MSG_REJECTED :: jsstring where
  "MSG_REJECTED =
     [0xE44, 0xE21, 0xE48, 0xE2A, 0xE32, 0xE21, 0xE32, 0xE23, 0xE16, 0xE41, 0xE25, 0xE01,
      0xE0B, 0xE2D, 0xE07, 0xE2D, 0xE31, 0xE07, 0xE40, 0xE1B, 0xE32, 0xE44, 0xE14, 0xE49]"

definition MSG_NO_AMOUNT :: jsstring where
  "MSG_NO_AMOUNT =
     [0xE44, 0xE21, 0xE48, 0xE1E, 0xE1A, 0xE08, 0xE33, 0xE19, 0xE27, 0xE19, 0xE40, 0xE07,
      0xE34, 0xE19, 0xE43, 0xE19, 0xE0B, 0xE2D, 0xE07, 0xE2D, 0xE31, 0xE07, 0xE40, 0xE1B,
      0xE32, 32, 0xE2B, 0xE23, 0xE37, 0xE2D, 0xE0B, 0xE2D, 0xE07, 0xE2D, 0xE31, 0xE07, 0xE40,
      0xE1B, 0xE32, 0xE44, 0xE21, 0xE48, 0xE16, 0xE39, 0xE01, 0xE15, 0xE49, 0xE2D, 0xE07]"

section \<open>Voucher locator\<close>

text \<open>
  \<^verbatim>\<open>link.match(pattern)\<close> with a pattern that has no \<^verbatim>\<open>g\<close> flag tries the pattern at
  each start index from the left and returns the first match; \<open>regex_search m\<close> does this
  for a matcher \<open>m\<close> that tries the pattern at the start of its argument.

  The three patterns are a literal followed by the group \<^verbatim>\<open>([a-zA-Z0-9]+)\<close>, the second one
  followed by \<^verbatim>\<open>$\<close>. The group is greedy; when \<^verbatim>\<open>$\<close> fails after the longest run, it
  fails after every shorter one as well, so backtracking finds nothing more.
\<close>

definition group_at :: "jsstring \<Rightarrow> bool \<Rightarrow> jsstring \<Rightarrow> jsstring option" where
  "group_at lit anchored s =
     (if prefix lit s
      then (let rest = drop (length lit) s; g = takeWhile alnum rest
            in if g = [] \<or> (anchored \<and> g \<noteq> rest) then None else Some g)
      else None)"

fun regex_search :: "(jsstring \<Rightarrow> 'a option) \<Rightarrow> jsstring \<Rightarrow> 'a option" where
  "regex_search m [] = m []"
| "regex_search m (c # cs) =
     (case m (c # cs) of Some g \<Rightarrow> Some g | None \<Rightarrow> regex_search m cs)"

type_synonym pattern = "jsstring \<Rightarrow> jsstring option"

definition pattern_v :: pattern where
  "pattern_v = regex_search (group_at (ascii ''v='') False)"

definition pattern_tail :: pattern where
  "pattern_tail = regex_search (group_at (ascii ''/'') True)"

definition pattern_campaign :: pattern where
  "pattern_campaign = regex_search (group_at (ascii ''gift.truemoney.com/campaign/?v='') False)"

definition patterns :: "pattern list" where
  "patterns = [pattern_v, pattern_tail, pattern_campaign]"

text \<open>The \<^verbatim>\<open>for\<close> loop: the first pattern that matches with a non-empty group 1.\<close>

fun first_match :: "pattern list \<Rightarrow> jsstring \<Rightarrow> jsstring option" where
  "first_match [] link = None"
| "first_match (p # ps) link =
     (case p link of
        Some g \<Rightarrow> if g \<noteq> [] then Some g else first_match ps link
      | None \<Rightarrow> first_match ps link)"

text \<open>
  \<open>extractVoucherHash\<close> over a list of patterns. The argument \<open>None\<close> stands for a value
  that is not a string (\<^verbatim>\<open>undefined\<close>, \<^verbatim>\<open>null\<close>, a number): \<^verbatim>\<open>link.match\<close> then raises a
  TypeError, which the \<^verbatim>\<open>catch\<close> replaces by the same error as a failed match.
\<close>

definition extractVoucherHash_with :: "pattern list \<Rightarrow> jsstring option \<Rightarrow> error + jsstring" where
  "extractVoucherHash_with ps link =
     (case link of
        None \<Rightarrow> Inl InvalidVoucherFormat
      | Some s \<Rightarrow>
          (case first_match ps s of
             Some h \<Rightarrow> Inr h
           | None \<Rightarrow> Inl InvalidVoucherFormat))"

definition extractVoucherHash :: "jsstring option \<Rightarrow> error + jsstring" where
  "extractVoucherHash link = extractVoucherHash_with patterns link"

text \<open>
  The rules in the words of the specification: the link contains the rule's literal followed
  by one or more alphanumeric characters, which for the trailing-segment rule reach the end
  of the link.
\<close>

definition rule_matches :: "jsstring \<Rightarrow> bool \<Rightarrow> jsstring \<Rightarrow> bool" where
  "rule_matches lit anchored link \<longleftrightarrow>
     (\<exists>pre g post. link = pre @ lit @ g @ post \<and> g \<noteq> [] \<and> list_all alnum g \<and>
        (anchored \<longrightarrow> post = []))"

section \<open>Numbers\<close>

text \<open>
  A JavaScript number is a binary64 float: \<^verbatim>\<open>NaN\<close>, one of the two infinities, or a finite
  value, which the model keeps as the rational that the float is exactly. Where the
  source computes a number from text, \<open>to_double\<close> below rounds the exact value to the
  nearest binary64 value. Negative zero is kept as zero (both are falsy and both are
  \<^verbatim>\<open><= 0\<close>). The sums and the quotient of the store's aggregation are exact.
\<close>

datatype jsnum = NaN | NegInf | Fin rat | PosInf

text \<open>Truthiness of a number: \<^verbatim>\<open>0\<close> and \<^verbatim>\<open>NaN\<close> are falsy.\<close>

fun num_truthy :: "jsnum \<Rightarrow> bool" where
  "num_truthy NaN = False"
| "num_truthy (Fin r) = (r \<noteq> 0)"
| "num_truthy NegInf = True"
| "num_truthy PosInf = True"

text \<open>\<^verbatim>\<open>n <= 0\<close>; every comparison with \<^verbatim>\<open>NaN\<close> is false.\<close>

fun num_le_zero :: "jsnum \<Rightarrow> bool" where
  "num_le_zero NaN = False"
| "num_le_zero NegInf = True"
| "num_le_zero (Fin r) = (r \<le> 0)"
| "num_le_zero PosInf = False"

text \<open>\<^verbatim>\<open>n > 0\<close>: the number is greater than zero.\<close>

fun num_pos :: "jsnum \<Rightarrow> bool" where
  "num_pos NaN = False"
| "num_pos NegInf = False"
| "num_pos (Fin r) = (0 < r)"
| "num_pos PosInf = True"

text \<open>
  The sum of two numbers (an infinity absorbs what is finite, opposite infinities give
  \<^verbatim>\<open>NaN\<close>), and the division by a positive count; \<^verbatim>\<open>$sum\<close> and \<^verbatim>\<open>$avg\<close> use them.
\<close>

fun num_add :: "jsnum \<Rightarrow> jsnum \<Rightarrow> jsnum" where
  "num_add NaN _ = NaN"
| "num_add _ NaN = NaN"
| "num_add PosInf NegInf = NaN"
| "num_add NegInf PosInf = NaN"
| "num_add PosInf _ = PosInf"
| "num_add _ PosInf = PosInf"
| "num_add NegInf _ = NegInf"
| "num_add _ NegInf = NegInf"
| "num_add (Fin a) (Fin b) = Fin (a + b)"

fun num_div_count :: "jsnum \<Rightarrow> nat \<Rightarrow> jsnum" where
  "num_div_count (Fin a) n = Fin (a / of_nat n)"
| "num_div_count x n = x"

text \<open>The larger of two numbers in the store's sort order, where \<^verbatim>\<open>NaN\<close> is lowest.\<close>

fun num_max :: "jsnum \<Rightarrow> jsnum \<Rightarrow> jsnum" where
  "num_max NaN b = b"
| "num_max a NaN = a"
| "num_max PosInf _ = PosInf"
| "num_max _ PosInf = PosInf"
| "num_max NegInf b = b"
| "num_max a NegInf = a"
| "num_max (Fin a) (Fin b) = Fin (max a b)"

subsection \<open>Rounding to binary64\<close>

text \<open>
  \<open>bits n\<close> is the number of binary digits of \<open>n\<close>, and \<open>floor_log2 p q\<close>, for positive
  \<open>p\<close> and \<open>q\<close>, the exponent \<open>e\<close> with \<open>2 ^ e \<le> p / q < 2 ^ (e + 1)\<close>: it is the difference
  of the bit lengths or one less.
\<close>

fun bits :: "nat \<Rightarrow> nat" where
  "bits n = (if n = 0 then 0 else Suc (bits (n div 2)))"

declare bits.simps [simp del]

definition pow2 :: "int \<Rightarrow> rat" where
  "pow2 k = (if 0 \<le> k then 2 ^ nat k else 1 / 2 ^ nat (- k))"

definition floor_log2 :: "int \<Rightarrow> int \<Rightarrow> int" where
  "floor_log2 p q =
     (let d = int (bits (nat p)) - int (bits (nat q))
      in if (if 0 \<le> d then q * 2 ^ nat d \<le> p else q \<le> p * 2 ^ nat (- d)) then d else d - 1)"

text \<open>The quotient \<open>a / b\<close> of a natural number by a positive one, rounded to the nearest
  integer, a tie to the even one.\<close>

definition div_half_even :: "int \<Rightarrow> int \<Rightarrow> int" where
  "div_half_even a b =
     (let f = a div b; r = a mod b
      in if 2 * r < b then f
         else if b < 2 * r then f + 1
         else if even f then f else f + 1)"

text \<open>
  Rounding of a positive rational \<open>p / q\<close>. With \<open>e\<close> its binary exponent, not below the
  least exponent \<open>- 1022\<close> of a normal number, the binary64 values near it are the multiples
  of \<open>2 ^ (e - 52)\<close>; the nearest multiple is taken, and it is infinity when it reaches
  \<open>2 ^ 1024\<close>. Below the normal range the multiples of \<open>2 ^ - 1074\<close> remain, zero among them.
\<close>

definition pos_double :: "rat \<Rightarrow> jsnum" where
  "pos_double r =
     (let (p, q) = quotient_of r;
          e = max (floor_log2 p q) (- 1022);
          m = (if e \<le> 52 then div_half_even (p * 2 ^ nat (52 - e)) q
               else div_half_even p (q * 2 ^ nat (e - 52)))
      in if 2 ^ 1024 \<le> of_int m * pow2 (e - 52) then PosInf
         else Fin (of_int m * pow2 (e - 52)))"

fun num_neg :: "jsnum \<Rightarrow> jsnum" where
  "num_neg NaN = NaN"
| "num_neg NegInf = PosInf"
| "num_neg (Fin r) = Fin (- r)"
| "num_neg PosInf = NegInf"

definition to_double :: "rat \<Rightarrow> jsnum" where
  "to_double r =
     (if r = 0 then Fin 0
      else if r < 0 then num_neg (pos_double (- r))
      else pos_double r)"

subsection \<open>Numbers and strings\<close>

text \<open>The class \<^verbatim>\<open>0-9\<close> and the decimal digits of a natural number.\<close>

definition digit :: "jschar \<Rightarrow> bool" where
  "digit c = (48 \<le> c \<and> c \<le> 57)"

fun digits :: "nat \<Rightarrow> jsstring" where
  "digits n = (if n < 10 then [48 + n] else digits (n div 10) @ [48 + n mod 10])"

declare digits.simps [simp del]

definition digits_value :: "jsstring \<Rightarrow> nat" where
  "digits_value ds = foldl (\<lambda>a c. 10 * a + (c - 48)) 0 ds"

text \<open>
  White space and line terminators of ECMAScript, which \<^verbatim>\<open>String.prototype.trim\<close> strips
  and \<^verbatim>\<open>parseFloat\<close> skips at the start.
\<close>

definition white_space :: "jschar \<Rightarrow> bool" where
  "white_space c =
     (c \<in> {9, 10, 11, 12, 13, 32, 0xA0, 0x1680, 0x2028, 0x2029, 0x202F, 0x205F, 0x3000, 0xFEFF}
      \<or> (0x2000 \<le> c \<and> c \<le> 0x200A))"

definition trim :: "jsstring \<Rightarrow> jsstring" where
  "trim s = rev (dropWhile white_space (rev (dropWhile white_space s)))"

text \<open>
  \<^verbatim>\<open>parseFloat\<close> on a string: skip leading white space, then read the longest prefix that
  is a decimal literal: a sign, then \<^verbatim>\<open>Infinity\<close> or digits with an optional fraction and an
  optional exponent (an \<^verbatim>\<open>e\<close> without digits after it is not part of the literal). No such
  prefix gives \<^verbatim>\<open>NaN\<close>. The result is the binary64 value nearest to the value of the
  literal.
\<close>

definition parse_exponent :: "jsstring \<Rightarrow> int" where
  "parse_exponent s =
     (case s of
        [] \<Rightarrow> 0
      | c # t \<Rightarrow>
          if c = 101 \<or> c = 69 then
            (let neg = (t \<noteq> [] \<and> hd t = 45);
                 t' = (if t \<noteq> [] \<and> (hd t = 45 \<or> hd t = 43) then tl t else t);
                 ds = takeWhile digit t'
             in if ds = [] then 0
                else if neg then - int (digits_value ds) else int (digits_value ds))
          else 0)"

definition scale10 :: "rat \<Rightarrow> int \<Rightarrow> rat" where
  "scale10 r e = (if 0 \<le> e then r * 10 ^ nat e else r / 10 ^ nat (- e))"

definition parse_unsigned :: "jsstring \<Rightarrow> jsnum" where
  "parse_unsigned s =
     (if prefix (ascii ''Infinity'') s then PosInf
      else
        (let ip = takeWhile digit s;
             r1 = dropWhile digit s;
             dot = (r1 \<noteq> [] \<and> hd r1 = 46);
             fp = (if dot then takeWhile digit (tl r1) else []);
             r2 = (if dot then dropWhile digit (tl r1) else r1)
         in if ip = [] \<and> fp = [] then NaN
            else to_double (scale10
                   (of_nat (digits_value ip) + of_nat (digits_value fp) / 10 ^ length fp)
                   (parse_exponent r2))))"

definition parseFloat_string :: "jsstring \<Rightarrow> jsnum" where
  "parseFloat_string s =
     (let t = dropWhile white_space s
      in case t of
           [] \<Rightarrow> NaN
         | c # u \<Rightarrow>
             if c = 45 then num_neg (parse_unsigned u)
             else if c = 43 then parse_unsigned u
             else parse_unsigned t)"

text \<open>
  \<^verbatim>\<open>Number.prototype.toString\<close> of a positive number \<open>r\<close>: the least number \<open>k\<close> of decimal
  digits \<open>s\<close>, with the position \<open>n\<close> of the decimal point, such that \<open>s * 10 ^ (n - k)\<close>
  rounds to \<open>r\<close>; of two such \<open>s\<close> the one nearer to \<open>r\<close>. Seventeen digits identify every
  binary64 value.

  \<open>decimal_exponent p q\<close> is the \<open>n\<close> with \<open>10 ^ (n - 1) \<le> p / q < 10 ^ n\<close>: the number of
  digits of the integer part, or for a number below one the position of its first
  non-zero decimal, searched up to the bit length of \<open>q\<close>.
\<close>

fun first_scale :: "int \<Rightarrow> int \<Rightarrow> nat \<Rightarrow> nat \<Rightarrow> nat" where
  "first_scale p q j 0 = j"
| "first_scale p q j (Suc fuel) =
     (if q \<le> p * 10 ^ j then j else first_scale p q (Suc j) fuel)"

definition decimal_exponent :: "int \<Rightarrow> int \<Rightarrow> int" where
  "decimal_exponent p q =
     (if q \<le> p then int (length (digits (nat (p div q))))
      else 1 - int (first_scale p q 1 (bits (nat q))))"

definition pow10 :: "int \<Rightarrow> rat" where
  "pow10 k = (if 0 \<le> k then 10 ^ nat k else 1 / 10 ^ nat (- k))"

text \<open>
  The candidates with \<open>k\<close> digits are the two multiples of \<open>10 ^ (n - k)\<close> around \<open>r\<close>;
  \<open>candidate r n k\<close> is the nearer one of those that round to \<open>r\<close> (the even one in a tie),
  if there is one.
\<close>

definition candidate :: "rat \<Rightarrow> int \<Rightarrow> nat \<Rightarrow> int option" where
  "candidate r n k =
     (let u = pow10 (n - int k);
          (a, b) = quotient_of (r / u);
          lo = a div b;
          hi = lo + 1;
          lo_ok = (to_double (of_int lo * u) = Fin r);
          hi_ok = (to_double (of_int hi * u) = Fin r)
      in if lo_ok \<and> hi_ok
         then (if 2 * (a mod b) < b then Some lo
               else if b < 2 * (a mod b) then Some hi
               else if even lo then Some lo else Some hi)
         else if lo_ok then Some lo
         else if hi_ok then Some hi
         else None)"

text \<open>
  The search for the least \<open>k\<close>, from \<open>k\<close> up to seventeen digits; the seventeen digits
  below the number stand for a rational that is no binary64 value.
\<close>

fun shortest :: "rat \<Rightarrow> int \<Rightarrow> nat \<Rightarrow> nat \<Rightarrow> int \<times> nat" where
  "shortest r n k 0 =
     (case candidate r n k of
        Some s \<Rightarrow> (s, k)
      | None \<Rightarrow> (let (a, b) = quotient_of (r / pow10 (n - int k)) in (a div b, k)))"
| "shortest r n k (Suc fuel) =
     (case candidate r n k of
        Some s \<Rightarrow> (s, k)
      | None \<Rightarrow> shortest r n (Suc k) fuel)"

text \<open>
  The layout of the digits \<open>s\<close> with the decimal point after \<open>n\<close> of them, as ECMAScript
  prescribes: plain digits up to \<^verbatim>\<open>1e21\<close>, a leading \<^verbatim>\<open>0.\<close> down to \<^verbatim>\<open>1e-6\<close>, exponent
  notation outside.
\<close>

definition strip_zeros :: "jsstring \<Rightarrow> jsstring" where
  "strip_zeros ds = rev (dropWhile (\<lambda>c. c = 48) (rev ds))"

definition layout :: "jsstring \<Rightarrow> int \<Rightarrow> jsstring" where
  "layout s n =
     (let k = int (length s) in
      if k \<le> n \<and> n \<le> 21 then s @ replicate (nat (n - k)) 48
      else if 0 < n \<and> n \<le> 21 then take (nat n) s @ [46] @ drop (nat n) s
      else if - 6 < n \<and> n \<le> 0 then [48, 46] @ replicate (nat (- n)) 48 @ s
      else
        (let e = n - 1;
             es = (if e < 0 then [45] else [43]) @ digits (nat \<bar>e\<bar>)
         in if k = 1 then s @ [101] @ es
            else take 1 s @ [46] @ drop 1 s @ [101] @ es))"

text \<open>
  The digits found stand for \<open>s * 10 ^ (n - k)\<close>. When the upper candidate is a power of
  ten it has one digit more than \<open>k\<close>: its trailing zeros are dropped, and the decimal point
  is placed by the length of the digits.
\<close>

definition positive_toString :: "rat \<Rightarrow> jsstring" where
  "positive_toString r =
     (let (p, q) = quotient_of r;
          n = decimal_exponent p q;
          (s, k) = shortest r n 1 16;
          ds = digits (nat s)
      in layout (strip_zeros ds) (n - int k + int (length ds)))"

fun Number_toString :: "jsnum \<Rightarrow> jsstring" where
  "Number_toString NaN = ascii ''NaN''"
| "Number_toString PosInf = ascii ''Infinity''"
| "Number_toString NegInf = ascii ''-Infinity''"
| "Number_toString (Fin r) =
     (if r = 0 then ascii ''0''
      else if r < 0 then [45] @ positive_toString (- r)
      else positive_toString r)"

text \<open>
  \<^verbatim>\<open>Number.prototype.toLocaleString()\<close> with the separators of the \<^verbatim>\<open>en-US\<close> locale data
  (which the \<^verbatim>\<open>th-TH\<close> data shares): at most three fraction digits, rounded half away from
  zero, trailing zeros dropped, the integer digits grouped in threes by commas. With
  \<open>\<bar>r\<bar> = p / q\<close>, the number of thousandths after rounding is
  \<open>\<lfloor>1000 * p / q + 1 / 2\<rfloor> = (2000 * p + q) div (2 * q)\<close>.
\<close>

fun group3 :: "jsstring \<Rightarrow> jsstring" where
  "group3 ds =
     (if length ds \<le> 3 then ds
      else group3 (take (length ds - 3) ds) @ [44] @ drop (length ds - 3) ds)"

declare group3.simps [simp del]

definition pad3 :: "jsstring \<Rightarrow> jsstring" where
  "pad3 ds = replicate (3 - length ds) 48 @ ds"

fun toLocaleString :: "jsnum \<Rightarrow> jsstring" where
  "toLocaleString NaN = ascii ''NaN''"
| "toLocaleString PosInf = [0x221E]"
| "toLocaleString NegInf = [45, 0x221E]"
| "toLocaleString (Fin r) =
     (let (p, q) = quotient_of \<bar>r\<bar>;
          m = nat ((2000 * p + q) div (2 * q));
          fp = m mod 1000;
          body = group3 (digits (m div 1000))
                 @ (if fp = 0 then [] else [46] @ strip_zeros (pad3 (digits fp)))
      in if r < 0 then [45] @ body else body)"

section \<open>Values of the external response\<close>

text \<open>
  The value that \<^verbatim>\<open>response.json()\<close> yields. An object is the list of its own properties,
  one entry for each key; \<open>JUndefined\<close> is what reading an absent property gives. A number
  in it is a binary64 value, as \<^verbatim>\<open>JSON.parse\<close> produces.
\<close>

datatype jsval =
    JUndefined
  | JNull
  | JBool bool
  | JNum jsnum
  | JStr jsstring
  | JArr "jsval list"
  | JObj "(jsstring \<times> jsval) list"

fun truthy :: "jsval \<Rightarrow> bool" where
  "truthy JUndefined = False"
| "truthy JNull = False"
| "truthy (JBool b) = b"
| "truthy (JNum n) = num_truthy n"
| "truthy (JStr s) = (s \<noteq> [])"
| "truthy (JArr xs) = True"
| "truthy (JObj kvs) = True"

fun nullish :: "jsval \<Rightarrow> bool" where
  "nullish JUndefined = True"
| "nullish JNull = True"
| "nullish v = False"

text \<open>
  \<open>get v k\<close> is \<^verbatim>\<open>v.k\<close> on a value that is neither \<^verbatim>\<open>null\<close> nor \<^verbatim>\<open>undefined\<close>, for the
  property names the source reads; none of them is a built-in property of a string, a
  number, a boolean or an array, so on these the result is \<^verbatim>\<open>undefined\<close>.
  \<open>opt v k\<close> is \<^verbatim>\<open>v?.k\<close>.
\<close>

fun get :: "jsval \<Rightarrow> jsstring \<Rightarrow> jsval" where
  "get (JObj kvs) k = (case map_of kvs k of Some v \<Rightarrow> v | None \<Rightarrow> JUndefined)"
| "get v k = JUndefined"

definition opt :: "jsval \<Rightarrow> jsstring \<Rightarrow> jsval" where
  "opt v k = (if nullish v then JUndefined else get v k)"

text \<open>\<^verbatim>\<open>a || b\<close> and \<^verbatim>\<open>a && b\<close> on values.\<close>

definition js_or :: "jsval \<Rightarrow> jsval \<Rightarrow> jsval" where
  "js_or a b = (if truthy a then a else b)"

definition js_and :: "jsval \<Rightarrow> jsval \<Rightarrow> jsval" where
  "js_and a b = (if truthy a then b else a)"

text \<open>
  \<^verbatim>\<open>ToString\<close>, which can throw. An object is converted by its \<^verbatim>\<open>toString\<close> method. An
  object of a JSON text inherits the method that gives \<^verbatim>\<open>[object Object]\<close>, unless it has an
  own property \<^verbatim>\<open>toString\<close>: that one is no function, the inherited \<^verbatim>\<open>valueOf\<close> (or an own
  property of this name) gives no primitive value either, and the conversion raises a
  TypeError (the text is the one of V8). An array is the \<^verbatim>\<open>join\<close> of its elements with
  commas, where \<^verbatim>\<open>null\<close> and \<^verbatim>\<open>undefined\<close> elements give the empty string and the other
  elements are converted from left to right.
\<close>

definition NOT_PRIMITIVE :: error where
  "NOT_PRIMITIVE = TypeError (ascii ''Cannot convert object to primitive value'')"

fun join_comma :: "jsstring list \<Rightarrow> jsstring" where
  "join_comma [] = []"
| "join_comma [s] = s"
| "join_comma (s # t # ss) = s @ [44] @ join_comma (t # ss)"

text \<open>The results of a list of steps in order, up to the first one that throws.\<close>

fun collect :: "(error + 'a) list \<Rightarrow> error + 'a list" where
  "collect [] = Inr []"
| "collect (x # xs) =
     (case x of
        Inl err \<Rightarrow> Inl err
      | Inr v \<Rightarrow> (case collect xs of Inl err \<Rightarrow> Inl err | Inr vs \<Rightarrow> Inr (v # vs)))"

fun ToString :: "jsval \<Rightarrow> error + jsstring" where
  "ToString JUndefined = Inr (ascii ''undefined'')"
| "ToString JNull = Inr (ascii ''null'')"
| "ToString (JBool b) = Inr (if b then ascii ''true'' else ascii ''false'')"
| "ToString (JNum n) = Inr (Number_toString n)"
| "ToString (JStr s) = Inr s"
| "ToString (JArr xs) =
     (case collect (map (\<lambda>x. if nullish x then Inr [] else ToString x) xs) of
        Inl err \<Rightarrow> Inl err
      | Inr ss \<Rightarrow> Inr (join_comma ss))"
| "ToString (JObj kvs) =
     (if map_of kvs (ascii ''toString'') \<noteq> None then Inl NOT_PRIMITIVE
      else Inr (ascii ''[object Object]''))"

text \<open>
  \<^verbatim>\<open>parseFloat(v)\<close> parses \<open>ToString v\<close>, and throws when that conversion throws. On a number
  the result is the number itself, since the digits that \<^verbatim>\<open>ToString\<close> produces identify the
  number.
\<close>

definition parseFloat :: "jsval \<Rightarrow> error + jsnum" where
  "parseFloat v =
     (case v of
        JNum n \<Rightarrow> Inr n
      | _ \<Rightarrow> (case ToString v of Inl err \<Rightarrow> Inl err | Inr s \<Rightarrow> Inr (parseFloat_string s)))"

section \<open>Redemption client\<close>

text \<open>
  What the outbound \<^verbatim>\<open>fetch\<close> does: the 30 second timer aborts it, it rejects for another
  reason, it resolves with a status outside 200 to 299 and a body text, the body cannot be
  read or is not JSON, or it resolves with a JSON body.
\<close>

datatype fetch_outcome =
    FetchAborted
  | FetchFailed jsstring
  | HttpNotOk nat jsstring
  | BodyFailed jsstring
  | HttpOk jsval

text \<open>
  What the surroundings do during one call of the service: the configured account
  (\<^verbatim>\<open>process.env.TRUEMONEY_MOBILE\<close>), the outcome of the outbound call if one is made,
  whether a read or a write of the store faults (with the fault's message), the texts that
  the store library puts into a validation error and a duplicate-key error, the time
  (\<^verbatim>\<open>Date.now\<close>) and the identifier of a new document.
\<close>

record env =
  TRUEMONEY_MOBILE :: "jsstring option"
  fetch_reply :: fetch_outcome
  read_fault :: "jsstring option"
  write_fault :: "jsstring option"
  validation_text :: "jsstring list \<Rightarrow> jsstring"
  duplicate_key_text :: jsstring
  now :: nat
  fresh_id :: nat

datatype status = Pending | Completed | Failed

text \<open>A document of the \<^verbatim>\<open>Donation\<close> model, with the paths of \<^verbatim>\<open>donationSchema\<close>.\<close>

record donation =
  doc_id :: nat
  donorName :: jsstring
  amount :: jsnum
  message :: jsstring
  voucherHash :: jsstring
  voucherLink :: jsstring
  ipAddress :: jsstring
  status :: status
  timestamp :: nat

text \<open>The payload of the \<^verbatim>\<open>new-donation\<close> event.\<close>

record donationData =
  ev_id :: nat
  ev_donorName :: jsstring
  ev_amount :: jsnum
  ev_message :: jsstring
  ev_timestamp :: nat

text \<open>
  The state that the service reads and changes: the documents of the collection in the
  order of insertion, the events emitted on the socket, and the payloads
  (\<^verbatim>\<open>voucherCode\<close>, \<^verbatim>\<open>mobileNumber\<close>) posted to the redemption endpoint.
\<close>

record world =
  ledger :: "donation list"
  emitted :: "donationData list"
  api_calls :: "(jsstring \<times> jsstring) list"

definition error_message :: "error \<Rightarrow> jsstring" where
  "error_message e =
     (case e of
        InvalidVoucherFormat \<Rightarrow> MSG_INVALID_LINK
      | DuplicateVoucher \<Rightarrow> MSG_DUPLICATE
      | ConfigurationError \<Rightarrow> MSG_CONFIG
      | UpstreamTimeout \<Rightarrow> MSG_TIMEOUT
      | ApiError st text \<Rightarrow> ascii ''API Error: '' @ digits st @ ascii '' - '' @ text
      | UpstreamRejected m \<Rightarrow> m
      | InvalidAmount \<Rightarrow> MSG_NO_AMOUNT
      | UpstreamUnavailable m \<Rightarrow> m
      | TypeError m \<Rightarrow> m
      | PersistenceFailure k m \<Rightarrow> m)"

text \<open>The success test of \<open>callTrueMoneyAPI\<close> on a response that is not \<^verbatim>\<open>null\<close>.\<close>

definition isSuccess :: "jsval \<Rightarrow> bool" where
  "isSuccess data =
     (get data (ascii ''success'') = JBool True
      \<or> get data (ascii ''status'') = JStr (ascii ''success'')
      \<or> opt (get data (ascii ''status'')) (ascii ''code'') = JStr (ascii ''SUCCESS'')
      \<or> opt (get data (ascii ''status'')) (ascii ''message'') = JStr (ascii ''success'')
      \<or> truthy (js_and (get data (ascii ''data''))
                        (get (get data (ascii ''data'')) (ascii ''voucher''))))"

definition errorMsg :: "jsval \<Rightarrow> jsval" where
  "errorMsg data =
     js_or (js_or (js_or (get data (ascii ''message'')) (get data (ascii ''error'')))
                  (opt (get data (ascii ''status'')) (ascii ''message'')))
           (JStr MSG_REJECTED)"

text \<open>
  The chain of \<^verbatim>\<open>if\<close> / \<^verbatim>\<open>else if\<close> that picks the amount; \<^verbatim>\<open>amount\<close> starts as 0. The
  chain throws when the \<^verbatim>\<open>parseFloat\<close> of the branch taken throws.
\<close>

definition extract_amount :: "jsval \<Rightarrow> error + jsnum" where
  "extract_amount data =
     (if truthy (opt (opt (get data (ascii ''data'')) (ascii ''voucher'')) (ascii ''amount_baht''))
      then parseFloat (opt (opt (get data (ascii ''data'')) (ascii ''voucher'')) (ascii ''amount_baht''))
      else if truthy (opt (opt (get data (ascii ''data'')) (ascii ''voucher''))
                          (ascii ''redeemed_amount_baht''))
      then parseFloat (opt (opt (get data (ascii ''data'')) (ascii ''voucher''))
                           (ascii ''redeemed_amount_baht''))
      else if truthy (opt (opt (get data (ascii ''data'')) (ascii ''my_ticket''))
                          (ascii ''amount_baht''))
      then parseFloat (opt (opt (get data (ascii ''data'')) (ascii ''my_ticket''))
                           (ascii ''amount_baht''))
      else if truthy (get data (ascii ''amount_bath''))
      then parseFloat (get data (ascii ''amount_bath''))
      else if truthy (get data (ascii ''amount''))
      then parseFloat (get data (ascii ''amount''))
      else if truthy (get data (ascii ''value''))
      then parseFloat (get data (ascii ''value''))
      else Inr (Fin 0))"

text \<open>
  The part of \<open>callTrueMoneyAPI\<close> after \<^verbatim>\<open>response.json()\<close>. Reading \<^verbatim>\<open>data.success\<close> of
  \<^verbatim>\<open>null\<close> raises a TypeError (the texts are those of V8); JSON text never gives
  \<^verbatim>\<open>undefined\<close>, on which the same read raises as well. \<^verbatim>\<open>new Error(errorMsg)\<close> converts
  its argument to a string, and throws what that conversion throws. Everything thrown here
  is rethrown by the handler of \<open>callTrueMoneyAPI\<close> as it is.
\<close>

definition read_response :: "jsval \<Rightarrow> error + (jsnum \<times> jsval)" where
  "read_response data =
     (case data of
        JNull \<Rightarrow> Inl (TypeError (ascii ''Cannot read properties of null (reading 'success')''))
      | JUndefined \<Rightarrow>
          Inl (TypeError (ascii ''Cannot read properties of undefined (reading 'success')''))
      | _ \<Rightarrow>
          if \<not> isSuccess data
          then (case ToString (errorMsg data) of
                  Inl err \<Rightarrow> Inl err
                | Inr m \<Rightarrow> Inl (UpstreamRejected m))
          else
            (case extract_amount data of
               Inl err \<Rightarrow> Inl err
             | Inr amt \<Rightarrow>
                 if \<not> num_truthy amt \<or> num_le_zero amt then Inl InvalidAmount
                 else Inr (amt, data)))"

text \<open>
  \<open>callTrueMoneyAPI\<close>. The result is paired with the world after the call, so that a
  request that was posted stays recorded when the function throws.
\<close>

definition callTrueMoneyAPI ::
  "env \<Rightarrow> jsstring \<Rightarrow> world \<Rightarrow> (error + (jsnum \<times> jsval)) \<times> world" where
  "callTrueMoneyAPI e hash w =
     (case TRUEMONEY_MOBILE e of
        None \<Rightarrow> (Inl ConfigurationError, w)
      | Some mobile \<Rightarrow>
          if mobile = [] then (Inl ConfigurationError, w)
          else
            (let w' = w\<lparr>api_calls := api_calls w @ [(hash, mobile)]\<rparr>
             in case fetch_reply e of
                  FetchAborted \<Rightarrow> (Inl UpstreamTimeout, w')
                | FetchFailed m \<Rightarrow> (Inl (UpstreamUnavailable m), w')
                | HttpNotOk st text \<Rightarrow> (Inl (ApiError st text), w')
                | BodyFailed m \<Rightarrow> (Inl (UpstreamUnavailable m), w')
                | HttpOk data \<Rightarrow> (read_response data, w')))"

section \<open>Donation ledger\<close>

text \<open>
  \<^verbatim>\<open>new Donation({...})\<close>: the setters of the schema trim \<^verbatim>\<open>donorName\<close> and \<^verbatim>\<open>message\<close>, the
  defaults give \<^verbatim>\<open>timestamp\<close> and \<^verbatim>\<open>_id\<close>, and properties that are not paths of the schema
  (\<^verbatim>\<open>apiResponse\<close>, \<^verbatim>\<open>errorMessage\<close>) are not kept. A link that is not a string leaves the
  path \<^verbatim>\<open>voucherLink\<close> empty.
\<close>

definition new_Donation ::
  "env \<Rightarrow> jsstring \<Rightarrow> jsnum \<Rightarrow> jsstring \<Rightarrow> jsstring \<Rightarrow> jsstring option \<Rightarrow> jsstring \<Rightarrow> status
     \<Rightarrow> donation" where
  "new_Donation e name amt msg hash link ip st =
     \<lparr>doc_id = fresh_id e,
      donorName = trim name,
      amount = amt,
      message = trim msg,
      voucherHash = hash,
      voucherLink = (case link of None \<Rightarrow> [] | Some l \<Rightarrow> l),
      ipAddress = ip,
      status = st,
      timestamp = now e\<rparr>"

text \<open>\<^verbatim>\<open>n >= 0\<close>, the \<^verbatim>\<open>min: 0\<close> validator; \<^verbatim>\<open>NaN\<close> is not accepted as a number at all.\<close>

fun num_ge_zero :: "jsnum \<Rightarrow> bool" where
  "num_ge_zero NaN = False"
| "num_ge_zero NegInf = False"
| "num_ge_zero (Fin r) = (0 \<le> r)"
| "num_ge_zero PosInf = True"

text \<open>
  The validators of \<^verbatim>\<open>donationSchema\<close>, giving the paths that fail: \<^verbatim>\<open>required\<close> rejects
  an empty string, \<^verbatim>\<open>maxLength\<close> a longer one, \<^verbatim>\<open>min\<close> a smaller number. The \<^verbatim>\<open>enum\<close> of
  \<^verbatim>\<open>status\<close> holds for every value of the type \<open>status\<close>.
\<close>

definition validate :: "donation \<Rightarrow> jsstring list" where
  "validate d =
     (if donorName d = [] \<or> 100 < length (donorName d) then [ascii ''donorName''] else [])
     @ (if \<not> num_ge_zero (amount d) then [ascii ''amount''] else [])
     @ (if 500 < length (message d) then [ascii ''message''] else [])
     @ (if voucherHash d = [] then [ascii ''voucherHash''] else [])
     @ (if voucherLink d = [] then [ascii ''voucherLink''] else [])
     @ (if ipAddress d = [] then [ascii ''ipAddress''] else [])"

text \<open>
  \<^verbatim>\<open>document.save()\<close>: validation, then the insert, which the store refuses when it is
  not reachable or when the unique index on \<^verbatim>\<open>voucherHash\<close> already holds the hash.
\<close>

definition save :: "env \<Rightarrow> donation \<Rightarrow> world \<Rightarrow> error + world" where
  "save e d w =
     (if validate d \<noteq> []
      then Inl (PersistenceFailure Validation (validation_text e (validate d)))
      else
        (case write_fault e of
           Some m \<Rightarrow> Inl (PersistenceFailure StoreFault m)
         | None \<Rightarrow>
             if voucherHash d \<in> set (map voucherHash (ledger w))
             then Inl (PersistenceFailure DuplicateKey (duplicate_key_text e))
             else Inr (w\<lparr>ledger := ledger w @ [d]\<rparr>)))"

text \<open>\<open>isDuplicateVoucher\<close>: \<^verbatim>\<open>Donation.findOne({ voucherHash })\<close>, then \<^verbatim>\<open>!!existing\<close>.\<close>

definition isDuplicateVoucher :: "env \<Rightarrow> jsstring \<Rightarrow> world \<Rightarrow> error + bool" where
  "isDuplicateVoucher e hash w =
     (case read_fault e of
        Some m \<Rightarrow> Inl (PersistenceFailure StoreFault m)
      | None \<Rightarrow> Inr (find (\<lambda>d. voucherHash d = hash) (ledger w) \<noteq> None))"

section \<open>Redemption pipeline\<close>

text \<open>The argument of \<open>processDonation\<close> and its result.\<close>

record claim =
  in_voucherLink :: "jsstring option"
  in_donorName :: jsstring
  in_message :: jsstring
  in_ipAddress :: jsstring

record result =
  res_success :: bool
  res_message :: jsstring
  res_data :: "donationData option"

definition THANKS_1 :: jsstring where
  "THANKS_1 = [0xE02, 0xE2D, 0xE1A, 0xE04, 0xE38, 0xE13, 32]"

definition THANKS_2 :: jsstring where
  "THANKS_2 =
     [32, 0xE2A, 0xE33, 0xE2B, 0xE23, 0xE31, 0xE1A, 0xE01, 0xE32, 0xE23, 0xE1A, 0xE23, 0xE34,
      0xE08, 0xE32, 0xE04, 32]"

definition THANKS_3 :: jsstring where
  "THANKS_3 = [32, 0xE1A, 0xE32, 0xE17, 33]"

text \<open>The object that the handler of \<open>processDonation\<close> returns for an error.\<close>

definition failed_result :: "error \<Rightarrow> result" where
  "failed_result err = \<lparr>res_success = False, res_message = error_message err, res_data = None\<rparr>"

text \<open>The body of the \<^verbatim>\<open>try\<close> block of \<open>processDonation\<close>.\<close>

definition processDonation_try :: "claim \<Rightarrow> env \<Rightarrow> world \<Rightarrow> (error + result) \<times> world" where
  "processDonation_try c e w =
     (case extractVoucherHash (in_voucherLink c) of
        Inl err \<Rightarrow> (Inl err, w)
      | Inr hash \<Rightarrow>
          (case isDuplicateVoucher e hash w of
             Inl err \<Rightarrow> (Inl err, w)
           | Inr dup \<Rightarrow>
               if dup then (Inl DuplicateVoucher, w)
               else
                 (case callTrueMoneyAPI e hash w of
                    (Inl err, w1) \<Rightarrow> (Inl err, w1)
                  | (Inr (amt, apiData), w1) \<Rightarrow>
                      (let d = new_Donation e (in_donorName c) amt (in_message c) hash
                                 (in_voucherLink c) (in_ipAddress c) Completed
                       in case save e d w1 of
                            Inl err \<Rightarrow> (Inl err, w1)
                          | Inr w2 \<Rightarrow>
                              (let dd = \<lparr>ev_id = doc_id d, ev_donorName = donorName d,
                                         ev_amount = amount d, ev_message = message d,
                                         ev_timestamp = timestamp d\<rparr>
                               in (Inr \<lparr>res_success = True,
                                        res_message = THANKS_1 @ in_donorName c @ THANKS_2
                                                      @ toLocaleString amt @ THANKS_3,
                                        res_data = Some dd\<rparr>,
                                   w2\<lparr>emitted := emitted w2 @ [dd]\<rparr>))))))"

text \<open>
  The expression \<^verbatim>\<open>this.extractVoucherHash(voucherLink || '').catch(() => '')\<close>.
  \<open>extractVoucherHash\<close> returns a string, and a string has no method \<^verbatim>\<open>catch\<close>: the call
  raises a TypeError (the text is the one of V8). A link that is not a string and falsy
  becomes the empty string; one that is not a string and truthy stays, and fails in
  \<open>extractVoucherHash\<close> with the same error as the empty string.
\<close>

definition call_catch :: "jsstring \<Rightarrow> error + jsstring" where
  "call_catch s = Inl (TypeError (ascii ''this.extractVoucherHash(...).catch is not a function''))"

definition link_or_empty :: "jsstring option \<Rightarrow> jsstring option" where
  "link_or_empty link = (case link of None \<Rightarrow> Some [] | Some l \<Rightarrow> Some l)"

text \<open>
  The inner \<^verbatim>\<open>try\<close> block of the \<^verbatim>\<open>catch\<close> handler: build the document of the failed
  attempt and save it. The properties of the object literal are evaluated before
  \<^verbatim>\<open>new Donation\<close> is called.
\<close>

definition save_errorDonation :: "claim \<Rightarrow> env \<Rightarrow> world \<Rightarrow> error + world" where
  "save_errorDonation c e w =
     (case extractVoucherHash (link_or_empty (in_voucherLink c)) of
        Inl err \<Rightarrow> Inl err
      | Inr h \<Rightarrow>
          (case call_catch h of
             Inl err \<Rightarrow> Inl err
           | Inr hash \<Rightarrow>
               save e (new_Donation e (in_donorName c) (Fin 0) (in_message c) hash
                         (in_voucherLink c) (in_ipAddress c) Failed) w))"

text \<open>
  \<open>processDonation\<close>: the \<^verbatim>\<open>try\<close> block, and on an error the handler, which attempts
  to save the failed attempt, ignores an error of that attempt, and returns the failure.
\<close>

definition processDonation :: "claim \<Rightarrow> env \<Rightarrow> world \<Rightarrow> result \<times> world" where
  "processDonation c e w =
     (case processDonation_try c e w of
        (Inr r, w') \<Rightarrow> (r, w')
      | (Inl err, w') \<Rightarrow>
          (\<lparr>res_success = False, res_message = error_message err, res_data = None\<rparr>,
           (case save_errorDonation c e w' of
              Inl saveError \<Rightarrow> w'
            | Inr w'' \<Rightarrow> w'')))"

section \<open>Reads of the ledger\<close>

text \<open>The projection \<^verbatim>\<open>select('donorName amount message timestamp -_id')\<close>.\<close>

record recent =
  r_donorName :: jsstring
  r_amount :: jsnum
  r_message :: jsstring
  r_timestamp :: nat

text \<open>
  \<^verbatim>\<open>limit(n)\<close>: zero is no limit, and a negative limit is taken by its absolute value.
\<close>

definition apply_limit :: "int \<Rightarrow> 'a list \<Rightarrow> 'a list" where
  "apply_limit n xs = (if n = 0 then xs else take (nat \<bar>n\<bar>) xs)"

text \<open>
  The query of \<open>getRecentDonations\<close>: completed documents, newest first. The store
  does not determine the order of documents with equal timestamps; the model keeps them
  in the order of insertion.
\<close>

definition find_recent :: "env \<Rightarrow> int \<Rightarrow> world \<Rightarrow> error + recent list" where
  "find_recent e n w =
     (case read_fault e of
        Some m \<Rightarrow> Inl (PersistenceFailure StoreFault m)
      | None \<Rightarrow>
          Inr (map (\<lambda>d. \<lparr>r_donorName = donorName d, r_amount = amount d,
                         r_message = message d, r_timestamp = timestamp d\<rparr>)
                 (apply_limit n
                    (sort_key (\<lambda>d. - int (timestamp d))
                       (filter (\<lambda>d. status d = Completed) (ledger w))))))"

text \<open>\<open>getRecentDonations\<close>; \<open>None\<close> is a call without argument (\<^verbatim>\<open>limit = 10\<close>).\<close>

definition getRecentDonations :: "env \<Rightarrow> int option \<Rightarrow> world \<Rightarrow> recent list" where
  "getRecentDonations e limit w =
     (case find_recent e (case limit of None \<Rightarrow> 10 | Some n \<Rightarrow> n) w of
        Inl err \<Rightarrow> []
      | Inr donations \<Rightarrow> donations)"

record stats =
  totalAmount :: jsnum
  totalDonations :: nat
  averageAmount :: jsnum
  topDonation :: jsnum
  lastDonation :: "nat option"

text \<open>
  The aggregation pipeline: \<^verbatim>\<open>$match\<close> the completed documents and \<^verbatim>\<open>$group\<close> them into
  one group. A \<^verbatim>\<open>$group\<close> stage with no input document gives no group.
\<close>

definition aggregate :: "env \<Rightarrow> world \<Rightarrow> error + stats list" where
  "aggregate e w =
     (case read_fault e of
        Some m \<Rightarrow> Inl (PersistenceFailure StoreFault m)
      | None \<Rightarrow>
          (let cs = filter (\<lambda>d. status d = Completed) (ledger w)
           in if cs = [] then Inr []
              else Inr [\<lparr>totalAmount = foldl num_add (Fin 0) (map amount cs),
                         totalDonations = length cs,
                         averageAmount =
                           num_div_count (foldl num_add (Fin 0) (map amount cs)) (length cs),
                         topDonation = foldl num_max NaN (map amount cs),
                         lastDonation = Some (Max (set (map timestamp cs)))\<rparr>]))"

definition zero_stats :: stats where
  "zero_stats =
     \<lparr>totalAmount = Fin 0, totalDonations = 0, averageAmount = Fin 0, topDonation = Fin 0,
      lastDonation = None\<rparr>"

text \<open>\<open>getDonationStats\<close>: \<^verbatim>\<open>stats[0] || {...}\<close>, and the same object in the handler.\<close>

definition getDonationStats :: "env \<Rightarrow> world \<Rightarrow> stats" where
  "getDonationStats e w =
     (case aggregate e w of
        Inl err \<Rightarrow> zero_stats
      | Inr [] \<Rightarrow> zero_stats
      | Inr (s # ss) \<Rightarrow> s)"

section \<open>Inputs of the scenarios\<close>

text \<open>
  The response \<^verbatim>\<open>{ success: true, data: { voucher: { amount_baht: "50" } } }\<close>, a claim for the
  link \<^verbatim>\<open>https://x/campaign/?v=ABC123\<close> by the donor Alice, surroundings in which the account
  is configured, the endpoint answers with that response and the store works, and a world
  with nothing in it.
\<close>

definition voucher_50 :: jsval where
  "voucher_50 =
     JObj [(ascii ''success'', JBool True),
           (ascii ''data'',
            JObj [(ascii ''voucher'', JObj [(ascii ''amount_baht'', JStr (ascii ''50''))])])]"

definition alice_claim :: claim where
  "alice_claim =
     \<lparr>in_voucherLink = Some (ascii ''https://x/campaign/?v=ABC123''),
      in_donorName = ascii ''Alice'',
      in_message = ascii ''hello'',
      in_ipAddress = ascii ''127.0.0.1''\<rparr>"

definition working_env :: env where
  "working_env =
     \<lparr>TRUEMONEY_MOBILE = Some (ascii ''0812345678''),
      fetch_reply = HttpOk voucher_50,
      read_fault = None,
      write_fault = None,
      validation_text = (\<lambda>paths. ascii ''Donation validation failed''),
      duplicate_key_text = ascii ''E11000 duplicate key error'',
      now = 1700000000000,
      fresh_id = 1\<rparr>"

definition empty_world :: world where
  "empty_world = \<lparr>ledger = [], emitted = [], api_calls = []\<rparr>"

text \<open>
  The amount probes of the specification, in its order: the nested voucher amount, the
  nested voucher redeemed amount, the nested alternate-ticket amount, the top-level
  misspelled amount, the top-level amount and the top-level value.
\<close>

definition amount_probes :: "jsval \<Rightarrow> jsval list" where
  "amount_probes data =
     [opt (opt (get data (ascii ''data'')) (ascii ''voucher'')) (ascii ''amount_baht''),
      opt (opt (get data (ascii ''data'')) (ascii ''voucher'')) (ascii ''redeemed_amount_baht''),
      opt (opt (get data (ascii ''data'')) (ascii ''my_ticket'')) (ascii ''amount_baht''),
      get data (ascii ''amount_bath''),
      get data (ascii ''amount''),
      get data (ascii ''value'')]"

text \<open>
  The response \<^verbatim>\<open>{ success: true, data: { voucher: { amount_baht: 0 } }, amount: 50 }\<close>: the
  nested voucher amount and the top-level amount are both present and differ.
\<close>

definition voucher_0_amount_50 :: jsval where
  "voucher_0_amount_50 =
     JObj [(ascii ''success'', JBool True),
           (ascii ''data'',
            JObj [(ascii ''voucher'', JObj [(ascii ''amount_baht'', JNum (Fin 0))])]),
           (ascii ''amount'', JNum (Fin 50))]"

text \<open>
  The response \<^verbatim>\<open>{ data: { voucher: { amount_baht: "50" } }, amount: 100 }\<close>, and the response
  \<^verbatim>\<open>{ success: true, data: { voucher: { amount_baht: "0" } } }\<close>.
\<close>

definition voucher_50_amount_100 :: jsval where
  "voucher_50_amount_100 =
     JObj [(ascii ''data'',
            JObj [(ascii ''voucher'', JObj [(ascii ''amount_baht'', JStr (ascii ''50''))])]),
           (ascii ''amount'', JNum (Fin 100))]"

definition voucher_0 :: jsval where
  "voucher_0 =
     JObj [(ascii ''success'', JBool True),
           (ascii ''data'',
            JObj [(ascii ''voucher'', JObj [(ascii ''amount_baht'', JStr (ascii ''0''))])])]"

text \<open>
  The response \<^verbatim>\<open>{ success: true, data: { voucher: { amount_baht: { toString: 1 } } } }\<close>, whose
  amount is an object that cannot be converted to a string, and the response
  \<^verbatim>\<open>{ success: true, data: { voucher: { amount_baht: "1e-324" } } }\<close>, whose amount is below
  the least positive number.
\<close>

definition voucher_object :: jsval where
  "voucher_object =
     JObj [(ascii ''success'', JBool True),
           (ascii ''data'',
            JObj [(ascii ''voucher'',
                   JObj [(ascii ''amount_baht'', JObj [(ascii ''toString'', JNum (Fin 1))])])])]"

definition voucher_tiny :: jsval where
  "voucher_tiny =
     JObj [(ascii ''success'', JBool True),
           (ascii ''data'',
            JObj [(ascii ''voucher'', JObj [(ascii ''amount_baht'', JStr (ascii ''1e-324''))])])]"

text \<open>
  Surroundings in which the outbound call runs into the 30 second timeout, in which the
  store refuses writes, and in which it refuses reads; a world whose ledger holds one
  completed donation.
\<close>

definition timeout_env :: env where
  "timeout_env = working_env\<lparr>fetch_reply := FetchAborted\<rparr>"

definition write_fault_env :: env where
  "write_fault_env = working_env\<lparr>write_fault := Some (ascii ''connection closed'')\<rparr>"

definition read_fault_env :: env where
  "read_fault_env = working_env\<lparr>read_fault := Some (ascii ''connection closed'')\<rparr>"

definition one_donation_world :: world where
  "one_donation_world =
     \<lparr>ledger = [\<lparr>doc_id = 1, donorName = ascii ''Alice'', amount = Fin 50,
                  message = ascii ''hello'', voucherHash = ascii ''ABC123'',
                  voucherLink = ascii ''https://x/campaign/?v=ABC123'',
                  ipAddress = ascii ''127.0.0.1'', status = Completed,
                  timestamp = 1700000000000\<rparr>],
      emitted = [],
      api_calls = []\<rparr>"

section \<open>Properties of the voucher locator\<close>

lemma regex_search_Some:
  "regex_search m s = Some g \<Longrightarrow> \<exists>pre t. s = pre @ t \<and> m t = Some g"
proof (induction s)
  case Nil
  then have "[] = [] @ [] \<and> m [] = Some g" by simp
  then show ?case by (intro exI)
next
  case (Cons c cs)
  show ?case
  proof (cases "m (c # cs)")
    case None
    with Cons.prems have "regex_search m cs = Some g" by simp
    then obtain pre t where "cs = pre @ t" "m t = Some g"
      using Cons.IH by blast
    then have "c # cs = (c # pre) @ t \<and> m t = Some g" by simp
    then show ?thesis by (intro exI)
  next
    case (Some h)
    with Cons.prems have "m (c # cs) = Some g" by simp
    then have "c # cs = [] @ (c # cs) \<and> m (c # cs) = Some g" by simp
    then show ?thesis by (intro exI)
  qed
qed

lemma regex_search_None:
  "regex_search m (pre @ t) = None \<Longrightarrow> m t = None"
proof (induction pre)
  case Nil
  then show ?case by (cases t) (simp_all split: option.splits)
next
  case (Cons c pre)
  then show ?case by (simp split: option.splits)
qed

lemma group_at_Some:
  assumes "group_at lit a t = Some g"
  shows "\<exists>post. t = lit @ g @ post \<and> g \<noteq> [] \<and> list_all alnum g \<and>
           (post = [] \<or> \<not> alnum (hd post)) \<and> (a \<longrightarrow> post = [])"
proof -
  from assms have p: "prefix lit t"
    by (simp add: group_at_def split: if_splits)
  then obtain rest where t: "t = lit @ rest"
    by (auto simp: prefix_def)
  from assms t have g: "g = takeWhile alnum rest" and ne: "g \<noteq> []"
    and anch: "a \<longrightarrow> g = rest"
    by (auto simp: group_at_def Let_def split: if_splits)
  let ?post = "dropWhile alnum rest"
  have "t = lit @ g @ ?post" using t g by simp
  moreover have "list_all alnum g" using g by (simp add: list_all_iff) (meson set_takeWhileD)
  moreover have "?post = [] \<or> \<not> alnum (hd ?post)"
    by (metis hd_dropWhile)
  moreover have "a \<longrightarrow> ?post = []"
    using anch g by (metis dropWhile_eq_Nil_conv set_takeWhileD)
  ultimately show ?thesis using ne by blast
qed

lemma group_at_match:
  assumes "g \<noteq> []" "list_all alnum g" "a \<longrightarrow> post = []"
  shows "group_at lit a (lit @ g @ post) \<noteq> None"
proof -
  have tw: "takeWhile alnum (g @ post) = g @ takeWhile alnum post"
    using assms(2) by (simp add: list_all_iff)
  show ?thesis
    using assms tw by (auto simp: group_at_def Let_def)
qed

lemma regex_search_matches:
  "regex_search (group_at lit a) link \<noteq> None \<longleftrightarrow> rule_matches lit a link"
proof
  assume "regex_search (group_at lit a) link \<noteq> None"
  then obtain g where sg: "regex_search (group_at lit a) link = Some g" by auto
  obtain pre t where l: "link = pre @ t" and m: "group_at lit a t = Some g"
    using regex_search_Some[OF sg] by auto
  from group_at_Some[OF m] obtain post where
    "t = lit @ g @ post" "g \<noteq> []" "list_all alnum g" "a \<longrightarrow> post = []"
    by auto
  with l have "link = pre @ lit @ g @ post \<and> g \<noteq> [] \<and> list_all alnum g \<and> (a \<longrightarrow> post = [])"
    by simp
  then show "rule_matches lit a link"
    unfolding rule_matches_def by (intro exI)
next
  assume "rule_matches lit a link"
  then obtain pre g post where l: "link = pre @ lit @ g @ post" and g: "g \<noteq> []" "list_all alnum g"
    "a \<longrightarrow> post = []"
    unfolding rule_matches_def by auto
  show "regex_search (group_at lit a) link \<noteq> None"
  proof
    assume "regex_search (group_at lit a) link = None"
    then have "group_at lit a (lit @ g @ post) = None"
      using l regex_search_None[of "group_at lit a" pre "lit @ g @ post"] by simp
    with group_at_match[OF g, of lit] show False by simp
  qed
qed

lemma regex_search_group:
  assumes "regex_search (group_at lit a) link = Some g"
  shows "g \<noteq> [] \<and> list_all alnum g \<and> sublist g link"
proof -
  obtain pre t where l: "link = pre @ t" and m: "group_at lit a t = Some g"
    using regex_search_Some[OF assms] by blast
  from group_at_Some[OF m] obtain post where "t = lit @ g @ post" "g \<noteq> []" "list_all alnum g"
    by blast
  with l have "link = (pre @ lit) @ g @ post" by simp
  then have "sublist g link" unfolding sublist_def by blast
  with \<open>g \<noteq> []\<close> \<open>list_all alnum g\<close> show ?thesis by simp
qed

lemma campaign_implies_v:
  assumes "rule_matches (pre0 @ lit) False link"
  shows "rule_matches lit False link"
proof -
  from assms obtain pre g post where "link = pre @ (pre0 @ lit) @ g @ post" "g \<noteq> []" "list_all alnum g"
    unfolding rule_matches_def by blast
  then have "link = (pre @ pre0) @ lit @ g @ post \<and> g \<noteq> [] \<and> list_all alnum g" by simp
  then show ?thesis unfolding rule_matches_def by blast
qed

lemma campaign_lit: "ascii ''gift.truemoney.com/campaign/?v='' = ascii ''gift.truemoney.com/campaign/?'' @ ascii ''v=''"
  by (simp add: ascii_def)

lemma pattern_campaign_dead:
  assumes "pattern_v link = None"
  shows "pattern_campaign link = None"
proof (rule ccontr)
  assume "pattern_campaign link \<noteq> None"
  then have "rule_matches (ascii ''gift.truemoney.com/campaign/?'' @ ascii ''v='') False link"
    unfolding pattern_campaign_def campaign_lit by (simp only: regex_search_matches)
  then have "rule_matches (ascii ''v='') False link"
    by (rule campaign_implies_v)
  then have "pattern_v link \<noteq> None"
    unfolding pattern_v_def by (simp only: regex_search_matches)
  with assms show False by simp
qed


lemma pattern_group:
  assumes "p = pattern_v \<or> p = pattern_tail \<or> p = pattern_campaign" "p link = Some g"
  shows "g \<noteq> [] \<and> list_all alnum g \<and> sublist g link"
  using assms regex_search_group
  unfolding pattern_v_def pattern_tail_def pattern_campaign_def by metis

lemma first_match_patterns:
  "first_match patterns link =
     (case pattern_v link of Some g \<Rightarrow> Some g
      | None \<Rightarrow> (case pattern_tail link of Some g \<Rightarrow> Some g
          | None \<Rightarrow> pattern_campaign link))"
proof -
  have ne: "\<And>p g. p = pattern_v \<or> p = pattern_tail \<or> p = pattern_campaign \<Longrightarrow> p link = Some g \<Longrightarrow> g \<noteq> []"
    using pattern_group by blast
  show ?thesis
    using ne[of pattern_v] ne[of pattern_tail] ne[of pattern_campaign]
    by (simp add: patterns_def split: option.splits)
qed

text \<open>
  Claim C3. On a string, \<open>extractVoucherHash\<close> returns the group captured by the first of
  the three patterns that matches, in the order \<^verbatim>\<open>v=\<close>, trailing segment, campaign URL. It
  fails with \<open>InvalidVoucherFormat\<close> exactly when the link matches none of the three rules;
  the empty string is such a link. A returned hash is a non-empty run of alphanumeric
  characters that occurs in the link. The function has no state: it is a function of the
  link alone.
\<close>

theorem extractVoucherHash_first_rule:
  "extractVoucherHash (Some link) =
     (case pattern_v link of Some g \<Rightarrow> Inr g
      | None \<Rightarrow> (case pattern_tail link of Some g \<Rightarrow> Inr g
          | None \<Rightarrow> (case pattern_campaign link of Some g \<Rightarrow> Inr g
              | None \<Rightarrow> Inl InvalidVoucherFormat)))
   \<and> (extractVoucherHash (Some link) = Inl InvalidVoucherFormat \<longleftrightarrow>
        \<not> (rule_matches (ascii ''v='') False link
           \<or> rule_matches (ascii ''/'') True link
           \<or> rule_matches (ascii ''gift.truemoney.com/campaign/?v='') False link))
   \<and> (\<forall>h. extractVoucherHash (Some link) = Inr h \<longrightarrow>
          h \<noteq> [] \<and> list_all alnum h \<and> sublist h link)
   \<and> extractVoucherHash (Some []) = Inl InvalidVoucherFormat"
proof -
  have cascade: "extractVoucherHash (Some link) =
     (case pattern_v link of Some g \<Rightarrow> Inr g
      | None \<Rightarrow> (case pattern_tail link of Some g \<Rightarrow> Inr g
          | None \<Rightarrow> (case pattern_campaign link of Some g \<Rightarrow> Inr g
              | None \<Rightarrow> Inl InvalidVoucherFormat)))"
    by (simp add: extractVoucherHash_def extractVoucherHash_with_def first_match_patterns
        split: option.splits)
  have fails: "extractVoucherHash (Some link) = Inl InvalidVoucherFormat \<longleftrightarrow>
        \<not> (rule_matches (ascii ''v='') False link
           \<or> rule_matches (ascii ''/'') True link
           \<or> rule_matches (ascii ''gift.truemoney.com/campaign/?v='') False link)"
    unfolding cascade
    using regex_search_matches[of "ascii ''v=''" False link]
      regex_search_matches[of "ascii ''/''" True link]
      regex_search_matches[of "ascii ''gift.truemoney.com/campaign/?v=''" False link]
    unfolding pattern_v_def pattern_tail_def pattern_campaign_def
    by (auto split: option.splits)
  have grp: "\<forall>h. extractVoucherHash (Some link) = Inr h \<longrightarrow>
          h \<noteq> [] \<and> list_all alnum h \<and> sublist h link"
    unfolding cascade
    using pattern_group[of pattern_v link] pattern_group[of pattern_tail link]
      pattern_group[of pattern_campaign link]
    by (simp split: option.splits)
  have empty: "extractVoucherHash (Some []) = Inl InvalidVoucherFormat"
    by (simp add: extractVoucherHash_def extractVoucherHash_with_def patterns_def
        pattern_v_def pattern_tail_def pattern_campaign_def group_at_def ascii_def)
  from cascade fails grp empty show ?thesis by (intro conjI)
qed

theorem extractVoucherHash_first_rule_witness:
  "extractVoucherHash (Some (ascii ''https://x/campaign/?v=ABC123'')) = Inr (ascii ''ABC123'')
   \<and> sublist (ascii ''ABC123'') (ascii ''https://x/campaign/?v=ABC123'')"
proof -
  let ?L = "ascii ''https://x/campaign/?v=ABC123''"
  have pv: "pattern_v ?L = Some (ascii ''ABC123'')"
    by (simp add: pattern_v_def group_at_def ascii_def alnum_def)
  from extractVoucherHash_first_rule[of ?L]
  have c: "extractVoucherHash (Some ?L) =
     (case pattern_v ?L of Some g \<Rightarrow> Inr g
      | None \<Rightarrow> (case pattern_tail ?L of Some g \<Rightarrow> Inr g
          | None \<Rightarrow> (case pattern_campaign ?L of Some g \<Rightarrow> Inr g
              | None \<Rightarrow> Inl InvalidVoucherFormat)))"
    and g: "\<forall>h. extractVoucherHash (Some ?L) = Inr h \<longrightarrow>
          h \<noteq> [] \<and> list_all alnum h \<and> sublist h ?L"
    by blast+
  from c have r: "extractVoucherHash (Some ?L) = Inr (ascii ''ABC123'')"
    by (simp only: pv option.case)
  with g show ?thesis by blast
qed

text \<open>
  Claim C10. The third pattern never decides: on every argument \<open>extractVoucherHash\<close> over
  the three patterns equals \<open>extractVoucherHash\<close> over the first two, because a link that
  the campaign pattern matches is matched by the \<^verbatim>\<open>v=\<close> pattern, which is tried first.
\<close>

theorem campaign_pattern_dead:
  "extractVoucherHash link = extractVoucherHash_with [pattern_v, pattern_tail] link
   \<and> (\<forall>s g. pattern_campaign s = Some g \<longrightarrow> (\<exists>g'. pattern_v s = Some g'))"
proof -
  have dead: "\<And>s. pattern_v s = None \<Longrightarrow> pattern_campaign s = None"
    by (rule pattern_campaign_dead)
  have two: "\<And>s. first_match [pattern_v, pattern_tail] s =
      (case pattern_v s of Some g \<Rightarrow> Some g | None \<Rightarrow> pattern_tail s)"
  proof -
    fix s
    have ne: "\<And>p g. p = pattern_v \<or> p = pattern_tail \<or> p = pattern_campaign \<Longrightarrow> p s = Some g \<Longrightarrow> g \<noteq> []"
      using pattern_group by blast
    show "first_match [pattern_v, pattern_tail] s =
      (case pattern_v s of Some g \<Rightarrow> Some g | None \<Rightarrow> pattern_tail s)"
      using ne[of pattern_v] ne[of pattern_tail] by (simp split: option.splits)
  qed
  have same: "\<And>s. first_match patterns s = first_match [pattern_v, pattern_tail] s"
    unfolding first_match_patterns two using dead by (simp split: option.splits)
  have "extractVoucherHash link = extractVoucherHash_with [pattern_v, pattern_tail] link"
    unfolding extractVoucherHash_def extractVoucherHash_with_def
    by (cases link) (simp_all only: same option.case)
  moreover have "\<forall>s g. pattern_campaign s = Some g \<longrightarrow> (\<exists>g'. pattern_v s = Some g')"
    using dead by (metis option.exhaust option.distinct(1))
  ultimately show ?thesis by (intro conjI)
qed

theorem campaign_pattern_dead_witness:
  "pattern_campaign (ascii ''https://gift.truemoney.com/campaign/?v=XYZ9'') = Some (ascii ''XYZ9'')
   \<and> (\<exists>g'. pattern_v (ascii ''https://gift.truemoney.com/campaign/?v=XYZ9'') = Some g')
   \<and> extractVoucherHash (Some (ascii ''https://gift.truemoney.com/campaign/?v=XYZ9''))
       = extractVoucherHash_with [pattern_v, pattern_tail]
           (Some (ascii ''https://gift.truemoney.com/campaign/?v=XYZ9''))"
proof -
  let ?L = "ascii ''https://gift.truemoney.com/campaign/?v=XYZ9''"
  have pc: "pattern_campaign ?L = Some (ascii ''XYZ9'')"
    by (simp add: pattern_campaign_def group_at_def ascii_def alnum_def)
  from campaign_pattern_dead[of "Some ?L"] pc show ?thesis by blast
qed

section \<open>Properties of the pipeline\<close>

lemma save_errorDonation_fails: "\<exists>err. save_errorDonation c e w = Inl err"
  by (simp add: save_errorDonation_def call_catch_def split: sum.splits)

lemma processDonation_handler:
  assumes "processDonation_try c e w = (Inl err, w')"
  shows "processDonation c e w =
           (\<lparr>res_success = False, res_message = error_message err, res_data = None\<rparr>, w')"
proof -
  obtain se where "save_errorDonation c e w' = Inl se"
    using save_errorDonation_fails by blast
  with assms show ?thesis by (simp add: processDonation_def)
qed

lemma processDonation_ok:
  "processDonation_try c e w = (Inr r, w') \<Longrightarrow> processDonation c e w = (r, w')"
  by (simp add: processDonation_def)

lemma save_Inr:
  assumes "save e d w = Inr w2"
  shows "w2 = w\<lparr>ledger := ledger w @ [d]\<rparr> \<and> validate d = [] \<and> write_fault e = None
         \<and> voucherHash d \<notin> set (map voucherHash (ledger w))"
  using assms by (auto simp: save_def split: if_splits option.splits)

lemma callTrueMoneyAPI_world:
  assumes "callTrueMoneyAPI e h w = (r, w1)"
  shows "ledger w1 = ledger w \<and> emitted w1 = emitted w"
  using assms
  by (auto simp: callTrueMoneyAPI_def Let_def split: option.splits if_splits fetch_outcome.splits)

lemma try_success:
  assumes "processDonation_try c e w = (Inr r, w')"
  shows "\<exists>h amt apiData w1.
           extractVoucherHash (in_voucherLink c) = Inr h
         \<and> isDuplicateVoucher e h w = Inr False
         \<and> callTrueMoneyAPI e h w = (Inr (amt, apiData), w1)
         \<and> save e (new_Donation e (in_donorName c) amt (in_message c) h (in_voucherLink c)
                     (in_ipAddress c) Completed) w1
             = Inr (w1\<lparr>ledger := ledger w1 @
                      [new_Donation e (in_donorName c) amt (in_message c) h (in_voucherLink c)
                         (in_ipAddress c) Completed]\<rparr>)
         \<and> res_success r
         \<and> ledger w' = ledger w @ [new_Donation e (in_donorName c) amt (in_message c) h
                                     (in_voucherLink c) (in_ipAddress c) Completed]"
proof -
  from assms obtain h where h: "extractVoucherHash (in_voucherLink c) = Inr h"
    by (cases "extractVoucherHash (in_voucherLink c)") (auto simp: processDonation_try_def)
  from assms h have dup: "isDuplicateVoucher e h w = Inr False"
    by (cases "isDuplicateVoucher e h w") (auto simp: processDonation_try_def split: if_splits)
  obtain ar w1 where api: "callTrueMoneyAPI e h w = (ar, w1)"
    by (cases "callTrueMoneyAPI e h w")
  from assms h dup api obtain amt apiData where ar: "ar = Inr (amt, apiData)"
    by (cases ar) (auto simp: processDonation_try_def)
  let ?d = "new_Donation e (in_donorName c) amt (in_message c) h (in_voucherLink c)
                     (in_ipAddress c) Completed"
  from assms h dup api ar obtain w2 where sv: "save e ?d w1 = Inr w2"
    by (cases "save e ?d w1") (auto simp: processDonation_try_def Let_def)
  from save_Inr[OF sv] have w2: "w2 = w1\<lparr>ledger := ledger w1 @ [?d]\<rparr>" by simp
  from assms h dup api ar sv have r: "res_success r" and w': "w' = w2\<lparr>emitted := emitted w2 @
       [\<lparr>ev_id = doc_id ?d, ev_donorName = donorName ?d, ev_amount = amount ?d,
         ev_message = message ?d, ev_timestamp = timestamp ?d\<rparr>]\<rparr>"
    by (auto simp: processDonation_try_def Let_def)
  from callTrueMoneyAPI_world[OF api] have "ledger w1 = ledger w" by simp
  with w' w2 have "ledger w' = ledger w @ [?d]" by simp
  with h dup api ar sv w2 r show ?thesis by blast
qed

lemma try_failure_ledger:
  assumes "processDonation_try c e w = (Inl err, w')"
  shows "ledger w' = ledger w \<and> emitted w' = emitted w"
proof (cases "extractVoucherHash (in_voucherLink c)")
  case (Inl a)
  with assms show ?thesis by (simp add: processDonation_try_def)
next
  case (Inr h)
  show ?thesis
  proof (cases "isDuplicateVoucher e h w")
    case (Inl a)
    with assms Inr show ?thesis by (simp add: processDonation_try_def)
  next
    case dup: (Inr b)
    show ?thesis
    proof (cases b)
      case True
      with assms Inr dup show ?thesis by (simp add: processDonation_try_def)
    next
      case False
      obtain ar w1 where api: "callTrueMoneyAPI e h w = (ar, w1)"
        by (cases "callTrueMoneyAPI e h w")
      from callTrueMoneyAPI_world[OF api] have w1: "ledger w1 = ledger w \<and> emitted w1 = emitted w" .
      show ?thesis
      proof (cases ar)
        case (Inl a)
        with assms Inr dup False api w1 show ?thesis by (simp add: processDonation_try_def)
      next
        case ok: (Inr p)
        obtain amt apiData where p: "p = (amt, apiData)" by (cases p)
        with assms Inr dup False api w1 ok show ?thesis
          by (auto simp: processDonation_try_def Let_def split: sum.splits)
      qed
    qed
  qed
qed

lemma extract_ABC123:
  "extractVoucherHash (Some (ascii ''https://x/campaign/?v=ABC123'')) = Inr (ascii ''ABC123'')"
  by (simp add: extractVoucherHash_def extractVoucherHash_with_def patterns_def pattern_v_def
      group_at_def ascii_def alnum_def)

subsection \<open>Rounding and parsing at the amounts of the scenarios\<close>

lemmas parse_defs = parseFloat_string_def parse_unsigned_def ascii_def white_space_def digit_def
  digits_value_def parse_exponent_def scale10_def Let_def

lemma bits_50: "bits 50 = 6"
  by (simp add: bits.simps)

lemma bits_1: "bits (Suc 0) = 1"
  by (simp add: bits.simps)

lemma floor_log2_50: "floor_log2 50 1 = 5"
  by (simp add: floor_log2_def bits_50 bits_1 Let_def)

lemma to_double_50: "to_double 50 = Fin 50"
  by (simp add: to_double_def pos_double_def floor_log2_50 div_half_even_def pow2_def)

lemma to_double_0: "to_double 0 = Fin 0"
  by (simp add: to_double_def)

lemma parseFloat_string_50: "parseFloat_string (ascii ''50'') = Fin 50"
  by (simp add: parse_defs to_double_50)

lemma parseFloat_string_0: "parseFloat_string (ascii ''0'') = Fin 0"
  by (simp add: parse_defs to_double_0)

text \<open>A positive number below \<open>2 ^ - 1075\<close>, half of the least positive binary64 value,
  rounds to zero.\<close>

lemma bits_upper: "n < 2 ^ bits n"
proof (induction n rule: bits.induct)
  case (1 n)
  show ?case
  proof (cases "n = 0")
    case True
    then show ?thesis by (simp add: bits.simps)
  next
    case False
    with 1 have "n div 2 < 2 ^ bits (n div 2)" by simp
    then have "n < 2 * 2 ^ bits (n div 2)" by linarith
    with False show ?thesis by (subst bits.simps) simp
  qed
qed

lemma bits_lower: "0 < n \<Longrightarrow> (2::nat) ^ (bits n - 1) \<le> n"
proof (induction n rule: bits.induct)
  case (1 n)
  show ?case
  proof (cases "n div 2 = 0")
    case True
    with 1 have "n = 1" by linarith
    then show ?thesis by (simp add: bits.simps)
  next
    case False
    with 1 have ih: "(2::nat) ^ (bits (n div 2) - 1) \<le> n div 2" by simp
    from False have "bits (n div 2) \<noteq> 0" by (subst bits.simps) simp
    then have "(2::nat) ^ bits (n div 2) = 2 * 2 ^ (bits (n div 2) - 1)"
      by (cases "bits (n div 2)") simp_all
    with ih have "(2::nat) ^ bits (n div 2) \<le> n" by linarith
    with 1 show ?thesis by (subst bits.simps) simp
  qed
qed

lemma floor_log2_small:
  assumes "0 < p" "p * 2 ^ 1075 < q"
  shows "floor_log2 p q \<le> - 1022"
proof -
  let ?bp = "bits (nat p)" and ?bq = "bits (nat q)"
  from assms(1) have "0 < p * 2 ^ 1075" by simp
  with assms(2) have q: "0 < q" by linarith
  from assms(1) have "(2::nat) ^ (?bp - 1) \<le> nat p" by (intro bits_lower) simp
  then have "int (2 ^ (?bp - 1)) \<le> int (nat p)" by (simp only: of_nat_le_iff)
  with assms(1) have lo: "(2::int) ^ (?bp - 1) \<le> p" by simp
  have "nat q < 2 ^ ?bq" by (rule bits_upper)
  then have "int (nat q) < int (2 ^ ?bq)" by (simp only: of_nat_less_iff)
  with q have hi: "q < (2::int) ^ ?bq" by simp
  from lo have "(2::int) ^ (?bp - 1) * 2 ^ 1075 \<le> p * 2 ^ 1075"
    by (rule mult_right_mono) simp
  with assms(2) hi have "(2::int) ^ (?bp - 1) * 2 ^ 1075 < 2 ^ ?bq" by linarith
  then have "(2::int) ^ (?bp - 1 + 1075) < 2 ^ ?bq"
    by (simp only: power_add)
  then have "?bp - 1 + 1075 < ?bq" by (simp only: power_strict_increasing_iff)
  then have d: "int ?bp - int ?bq \<le> - 1022" by linarith
  have "floor_log2 p q \<le> int ?bp - int ?bq"
    unfolding floor_log2_def Let_def by (simp only: if_distrib split: if_splits) simp
  with d show ?thesis by linarith
qed

lemma pos_double_underflow:
  assumes "quotient_of r = (p, q)" "0 < p" "p * 2 ^ 1075 < q"
  shows "pos_double r = Fin 0"
proof -
  from floor_log2_small[OF assms(2,3)] have e: "max (floor_log2 p q) (- 1022) = - 1022"
    by simp
  have a: "0 \<le> p * 2 ^ 1074" using assms(2) by simp
  have "p * 2 ^ 1075 = p * (2 ^ 1074 * 2)" by (simp only: power_Suc2[symmetric]) simp
  then have "p * 2 ^ 1075 = 2 * (p * 2 ^ 1074)" by (simp only: mult.assoc mult.commute)
  with assms(3) have b: "2 * (p * 2 ^ 1074) < q" by simp
  with a have c: "p * 2 ^ 1074 < q" by linarith
  from a c have "p * 2 ^ 1074 div q = 0" "p * 2 ^ 1074 mod q = p * 2 ^ 1074"
    by simp_all
  with b have m: "div_half_even (p * 2 ^ 1074) q = 0"
    by (simp add: div_half_even_def)
  have le: "(- 1022::int) \<le> 52" by simp
  have n: "nat (52 - (- 1022::int)) = 1074" by simp
  have m': "(if (- 1022::int) \<le> 52 then div_half_even (p * 2 ^ nat (52 - (- 1022))) q
             else div_half_even p (q * 2 ^ nat (- 1022 - 52))) = 0"
    unfolding if_P[OF le] n by (rule m)
  show ?thesis
    unfolding pos_double_def assms(1) prod.case Let_def e m'
    by simp
qed

lemma quotient_tiny: "quotient_of (1 / 10 ^ 324) = (1, 10 ^ 324)"
proof -
  have "(1::rat) / 10 ^ 324 = Fract 1 (10 ^ 324)"
    by (simp add: Fract_of_int_quotient)
  then show ?thesis
    by (simp only: quotient_of_Fract) simp
qed

lemma to_double_tiny: "to_double (1 / 10 ^ 324) = Fin 0"
proof -
  have "pos_double (1 / 10 ^ 324) = Fin 0"
    by (rule pos_double_underflow[OF quotient_tiny]) simp_all
  then show ?thesis by (simp add: to_double_def)
qed

lemma parseFloat_string_tiny: "parseFloat_string (ascii ''1e-324'') = Fin 0"
proof -
  have "parseFloat_string (ascii ''1e-324'') = to_double (1 / 10 ^ 324)"
    by (simp add: parse_defs)
  then show ?thesis by (simp only: to_double_tiny)
qed

subsection \<open>The response of the scenario\<close>

lemma extract_amount_voucher_50: "extract_amount voucher_50 = Inr (Fin 50)"
proof -
  have "opt (opt (get voucher_50 (ascii ''data'')) (ascii ''voucher'')) (ascii ''amount_baht'')
          = JStr (ascii ''50'')"
    by (simp add: voucher_50_def opt_def ascii_def)
  then show ?thesis
    by (simp add: extract_amount_def parseFloat_def parseFloat_string_50) (simp add: ascii_def)
qed

lemma read_response_not_nullish:
  assumes "\<not> nullish data"
  shows "read_response data =
           (if \<not> isSuccess data
            then (case ToString (errorMsg data) of
                    Inl err \<Rightarrow> Inl err
                  | Inr m \<Rightarrow> Inl (UpstreamRejected m))
            else
              (case extract_amount data of
                 Inl err \<Rightarrow> Inl err
               | Inr amt \<Rightarrow>
                   if \<not> num_truthy amt \<or> num_le_zero amt then Inl InvalidAmount
                   else Inr (amt, data)))"
  using assms by (cases data) (auto simp: read_response_def)

lemma read_response_nullish:
  assumes "nullish data"
  shows "\<exists>m. read_response data = Inl (TypeError m)"
  using assms by (cases data) (simp_all add: read_response_def)

lemma read_response_voucher_50: "read_response voucher_50 = Inr (Fin 50, voucher_50)"
proof -
  have "get voucher_50 (ascii ''success'') = JBool True"
    by (simp add: voucher_50_def ascii_def)
  then have "isSuccess voucher_50" by (simp add: isSuccess_def)
  moreover have "\<not> nullish voucher_50" by (simp add: voucher_50_def)
  ultimately show ?thesis
    by (simp add: read_response_not_nullish extract_amount_voucher_50)
qed

lemma toLocaleString_50: "toLocaleString (Fin 50) = ascii ''50''"
  by (simp add: ascii_def group3.simps digits.simps Let_def)

lemma trim_Alice: "trim (ascii ''Alice'') = ascii ''Alice''"
  by (simp add: trim_def ascii_def white_space_def)

lemma isDuplicateVoucher_iff:
  "read_fault e = None \<Longrightarrow>
     isDuplicateVoucher e h w = Inr (h \<in> set (map voucherHash (ledger w)))"
  by (auto simp: isDuplicateVoucher_def find_None_iff)

lemma try_success_intro:
  assumes "extractVoucherHash (in_voucherLink c) = Inr h"
    and "isDuplicateVoucher e h w = Inr False"
    and "callTrueMoneyAPI e h w = (Inr (amt, apiData), w1)"
    and "save e (new_Donation e (in_donorName c) amt (in_message c) h (in_voucherLink c)
                   (in_ipAddress c) Completed) w1 = Inr w2"
  shows "processDonation_try c e w =
           (Inr \<lparr>res_success = True,
                 res_message = THANKS_1 @ in_donorName c @ THANKS_2 @ toLocaleString amt @ THANKS_3,
                 res_data = Some \<lparr>ev_id = fresh_id e, ev_donorName = trim (in_donorName c),
                                   ev_amount = amt, ev_message = trim (in_message c),
                                   ev_timestamp = now e\<rparr>\<rparr>,
            w2\<lparr>emitted := emitted w2 @
                  [\<lparr>ev_id = fresh_id e, ev_donorName = trim (in_donorName c),
                    ev_amount = amt, ev_message = trim (in_message c),
                    ev_timestamp = now e\<rparr>]\<rparr>)"
  using assms(4)
  by (simp add: processDonation_try_def assms(1,2,3) Let_def) (simp add: new_Donation_def)

lemma try_save_failure:
  assumes "extractVoucherHash (in_voucherLink c) = Inr h"
    and "isDuplicateVoucher e h w = Inr False"
    and "callTrueMoneyAPI e h w = (Inr (amt, apiData), w1)"
    and "save e (new_Donation e (in_donorName c) amt (in_message c) h (in_voucherLink c)
                   (in_ipAddress c) Completed) w1 = Inl err"
  shows "processDonation_try c e w = (Inl err, w1)"
  using assms(4)
  by (simp add: processDonation_try_def assms(1,2,3) Let_def)

lemma processDonation_voucher_50:
  assumes link: "in_voucherLink c = Some (ascii ''https://x/campaign/?v=ABC123'')"
    and donor: "in_donorName c = ascii ''Alice''"
    and reply: "fetch_reply e = HttpOk voucher_50"
    and mobile: "TRUEMONEY_MOBILE e = Some mobile" "mobile \<noteq> []"
    and store: "read_fault e = None" "write_fault e = None"
    and ip: "in_ipAddress c \<noteq> []"
    and msg: "length (trim (in_message c)) \<le> 500"
    and fresh: "ascii ''ABC123'' \<notin> set (map voucherHash (ledger w))"
  shows "processDonation c e w =
           (\<lparr>res_success = True,
             res_message = THANKS_1 @ ascii ''Alice'' @ THANKS_2 @ ascii ''50'' @ THANKS_3,
             res_data = Some \<lparr>ev_id = fresh_id e, ev_donorName = ascii ''Alice'',
                               ev_amount = Fin 50, ev_message = trim (in_message c),
                               ev_timestamp = now e\<rparr>\<rparr>,
            w\<lparr>api_calls := api_calls w @ [(ascii ''ABC123'', mobile)],
              ledger := ledger w @
                [new_Donation e (ascii ''Alice'') (Fin 50) (in_message c) (ascii ''ABC123'')
                   (Some (ascii ''https://x/campaign/?v=ABC123'')) (in_ipAddress c) Completed],
              emitted := emitted w @
                [\<lparr>ev_id = fresh_id e, ev_donorName = ascii ''Alice'', ev_amount = Fin 50,
                  ev_message = trim (in_message c), ev_timestamp = now e\<rparr>]\<rparr>)"
proof -
  let ?h = "ascii ''ABC123''"
  let ?d = "new_Donation e (in_donorName c) (Fin 50) (in_message c) ?h (in_voucherLink c)
              (in_ipAddress c) Completed"
  let ?w1 = "w\<lparr>api_calls := api_calls w @ [(?h, mobile)]\<rparr>"
  let ?w2 = "?w1\<lparr>ledger := ledger ?w1 @ [?d]\<rparr>"
  have h: "extractVoucherHash (in_voucherLink c) = Inr ?h"
    by (simp only: link extract_ABC123)
  have dup: "isDuplicateVoucher e ?h w = Inr False"
    using fresh by (simp add: isDuplicateVoucher_iff[OF store(1)])
  have api: "callTrueMoneyAPI e ?h w = (Inr (Fin 50, voucher_50), ?w1)"
    using mobile reply by (simp add: callTrueMoneyAPI_def read_response_voucher_50)
  have hne: "?h \<noteq> []" by (simp add: ascii_def)
  have valid: "validate ?d = []"
    using ip msg hne
    by (simp add: validate_def new_Donation_def donor link trim_Alice) (simp add: ascii_def)
  have sv: "save e ?d ?w1 = Inr ?w2"
    using valid store(2) fresh by (simp add: save_def) (simp add: new_Donation_def)
  note pd = processDonation_ok[OF try_success_intro[OF h dup api sv]]
  show ?thesis
    unfolding pd by (simp add: donor link trim_Alice toLocaleString_50 del: toLocaleString.simps)
qed

lemma duplicate_fails:
  assumes h: "extractVoucherHash (in_voucherLink c) = Inr h"
    and dup: "h \<in> set (map voucherHash (ledger w))"
  shows "\<not> res_success (fst (processDonation c e w)) \<and> snd (processDonation c e w) = w
         \<and> (read_fault e = None \<longrightarrow>
              processDonation c e w =
                (\<lparr>res_success = False, res_message = MSG_DUPLICATE, res_data = None\<rparr>, w))"
proof (cases "read_fault e")
  case None
  have "isDuplicateVoucher e h w = Inr True"
    using dup by (simp add: isDuplicateVoucher_iff[OF None])
  then have "processDonation_try c e w = (Inl DuplicateVoucher, w)"
    by (simp add: processDonation_try_def h)
  from processDonation_handler[OF this] show ?thesis
    by (simp add: error_message_def)
next
  case (Some m)
  then have "isDuplicateVoucher e h w = Inl (PersistenceFailure StoreFault m)"
    by (simp add: isDuplicateVoucher_def)
  then have "processDonation_try c e w = (Inl (PersistenceFailure StoreFault m), w)"
    by (simp add: processDonation_try_def h)
  from processDonation_handler[OF this] Some show ?thesis by simp
qed

lemma processDonation_success:
  assumes "res_success (fst (processDonation c e w))"
  shows "\<exists>h d. extractVoucherHash (in_voucherLink c) = Inr h
           \<and> ledger (snd (processDonation c e w)) = ledger w @ [d]
           \<and> voucherHash d = h \<and> status d = Completed
           \<and> h \<notin> set (map voucherHash (ledger w))"
proof -
  obtain tr w' where t: "processDonation_try c e w = (tr, w')"
    by (cases "processDonation_try c e w")
  show ?thesis
  proof (cases tr)
    case (Inl err)
    with t have "processDonation_try c e w = (Inl err, w')" by simp
    from processDonation_handler[OF this] assms show ?thesis by simp
  next
    case (Inr r)
    with t have tr: "processDonation_try c e w = (Inr r, w')" by simp
    from try_success[OF tr] obtain h amt apiData w1 where
      h: "extractVoucherHash (in_voucherLink c) = Inr h"
      and api: "callTrueMoneyAPI e h w = (Inr (amt, apiData), w1)"
      and sv: "save e (new_Donation e (in_donorName c) amt (in_message c) h (in_voucherLink c)
                     (in_ipAddress c) Completed) w1
             = Inr (w1\<lparr>ledger := ledger w1 @
                      [new_Donation e (in_donorName c) amt (in_message c) h (in_voucherLink c)
                         (in_ipAddress c) Completed]\<rparr>)"
      and led: "ledger w' = ledger w @ [new_Donation e (in_donorName c) amt (in_message c) h
                                     (in_voucherLink c) (in_ipAddress c) Completed]"
      by blast
    let ?d = "new_Donation e (in_donorName c) amt (in_message c) h (in_voucherLink c)
                (in_ipAddress c) Completed"
    from save_Inr[OF sv] have "voucherHash ?d \<notin> set (map voucherHash (ledger w1))" by simp
    moreover from callTrueMoneyAPI_world[OF api] have "ledger w1 = ledger w" by simp
    moreover have vh: "voucherHash ?d = h" and st: "status ?d = Completed"
      by (simp_all add: new_Donation_def)
    ultimately have fresh: "h \<notin> set (map voucherHash (ledger w))" by simp
    from processDonation_ok[OF tr] led have "ledger (snd (processDonation c e w)) = ledger w @ [?d]"
      by simp
    with h vh st fresh show ?thesis by blast
  qed
qed

lemma processDonation_failure:
  assumes "\<not> res_success (fst (processDonation c e w))"
  shows "ledger (snd (processDonation c e w)) = ledger w
         \<and> emitted (snd (processDonation c e w)) = emitted w"
proof -
  obtain tr w' where t: "processDonation_try c e w = (tr, w')"
    by (cases "processDonation_try c e w")
  show ?thesis
  proof (cases tr)
    case (Inl err)
    with t have tl: "processDonation_try c e w = (Inl err, w')" by simp
    from processDonation_handler[OF tl] try_failure_ledger[OF tl] show ?thesis by simp
  next
    case (Inr r)
    with t have tr: "processDonation_try c e w = (Inr r, w')" by simp
    from try_success[OF tr] have "res_success r" by blast
    with processDonation_ok[OF tr] assms show ?thesis by simp
  qed
qed

lemma alice_first_attempt:
  "res_success (fst (processDonation alice_claim working_env empty_world))
   \<and> api_calls (snd (processDonation alice_claim working_env empty_world))
       = [(ascii ''ABC123'', ascii ''0812345678'')]"
proof -
  have link: "in_voucherLink alice_claim = Some (ascii ''https://x/campaign/?v=ABC123'')"
    and donor: "in_donorName alice_claim = ascii ''Alice''"
    and ip: "in_ipAddress alice_claim \<noteq> []"
    by (simp_all add: alice_claim_def ascii_def)
  have msg: "length (trim (in_message alice_claim)) \<le> 500"
    by (simp add: alice_claim_def trim_def ascii_def white_space_def)
  have reply: "fetch_reply working_env = HttpOk voucher_50"
    and mobile: "TRUEMONEY_MOBILE working_env = Some (ascii ''0812345678'')"
    and store: "read_fault working_env = None" "write_fault working_env = None"
    by (simp_all add: working_env_def)
  have mne: "ascii ''0812345678'' \<noteq> []" by (simp add: ascii_def)
  have fresh: "ascii ''ABC123'' \<notin> set (map voucherHash (ledger empty_world))"
    by (simp add: empty_world_def)
  show ?thesis
    unfolding processDonation_voucher_50[OF link donor reply mobile mne store ip msg fresh]
    by (simp add: empty_world_def)
qed

lemma alice_hash:
  "extractVoucherHash (in_voucherLink alice_claim) = Inr (ascii ''ABC123'')"
  by (simp only: alice_claim_def claim.simps extract_ABC123)

lemma alice_not_duplicate:
  "read_fault e = None \<Longrightarrow> isDuplicateVoucher e (ascii ''ABC123'') empty_world = Inr False"
  by (simp add: isDuplicateVoucher_iff empty_world_def)

lemma write_fault_api:
  "callTrueMoneyAPI write_fault_env (ascii ''ABC123'') empty_world
     = (Inr (Fin 50, voucher_50),
        empty_world\<lparr>api_calls := api_calls empty_world
                       @ [(ascii ''ABC123'', ascii ''0812345678'')]\<rparr>)"
  by (simp add: callTrueMoneyAPI_def write_fault_env_def working_env_def
      read_response_voucher_50) (simp add: ascii_def)

lemma write_fault_save:
  "save write_fault_env
     (new_Donation write_fault_env (in_donorName alice_claim) (Fin 50)
        (in_message alice_claim) (ascii ''ABC123'') (in_voucherLink alice_claim)
        (in_ipAddress alice_claim) Completed)
     (empty_world\<lparr>api_calls := api_calls empty_world
                    @ [(ascii ''ABC123'', ascii ''0812345678'')]\<rparr>)
   = Inl (PersistenceFailure StoreFault (ascii ''connection closed''))"
  by (simp add: save_def validate_def new_Donation_def alice_claim_def write_fault_env_def
      working_env_def trim_def white_space_def ascii_def)

lemma write_fault_no_read_fault: "read_fault write_fault_env = None"
  by (simp add: write_fault_env_def working_env_def)

section \<open>Properties of the redemption client\<close>

lemma not_pos_iff: "num_pos a \<longleftrightarrow> num_truthy a \<and> \<not> num_le_zero a"
  by (cases a) auto

lemma read_response_amount:
  assumes "\<not> nullish data" "isSuccess data" "extract_amount data = Inr a"
  shows "read_response data = (if num_pos a then Inr (a, data) else Inl InvalidAmount)"
  using assms not_pos_iff[of a]
  by (auto simp: read_response_not_nullish)

lemma read_response_throws:
  assumes "\<not> nullish data" "isSuccess data" "extract_amount data = Inl err"
  shows "read_response data = Inl err"
  using assms by (simp add: read_response_not_nullish)

lemma success_flag:
  assumes "get data (ascii ''success'') = JBool True"
  shows "\<not> nullish data \<and> isSuccess data"
  using assms by (cases data) (simp_all add: isSuccess_def)

lemma read_response_Inr:
  assumes "read_response data = Inr (amt, d)"
  shows "num_pos amt \<and> extract_amount data = Inr amt \<and> d = data"
proof (cases "nullish data")
  case True
  from read_response_nullish[OF True] assms show ?thesis by auto
next
  case False
  show ?thesis
  proof (cases "extract_amount data")
    case (Inl err)
    with assms False show ?thesis
      by (auto simp: read_response_not_nullish split: if_splits sum.splits)
  next
    case (Inr a)
    with assms False not_pos_iff[of a] show ?thesis
      by (auto simp: read_response_not_nullish split: if_splits sum.splits)
  qed
qed

text \<open>What the conversion to a string throws is always the same TypeError.\<close>

lemma collect_Inl:
  "collect xs = Inl err \<Longrightarrow> Inl err \<in> set xs"
  by (induction xs) (auto split: sum.splits)

lemma ToString_Inl: "ToString v = Inl err \<Longrightarrow> err = NOT_PRIMITIVE"
proof (induction v rule: ToString.induct)
  case (6 xs)
  from "6.prems" have "collect (map (\<lambda>x. if nullish x then Inr [] else ToString x) xs) = Inl err"
    by (simp split: sum.splits)
  from collect_Inl[OF this] obtain x where x: "x \<in> set xs"
    and "(if nullish x then Inr [] else ToString x) = Inl err"
    by auto
  then have "\<not> nullish x" and "ToString x = Inl err"
    by (simp_all split: if_splits)
  with "6.IH"[OF x] show ?case by simp
qed (simp_all split: if_splits)

lemma parseFloat_Inl: "parseFloat v = Inl err \<Longrightarrow> err = NOT_PRIMITIVE"
  by (cases v)
    (auto simp: parseFloat_def simp del: ToString.simps split: sum.splits dest: ToString_Inl)

lemma extract_amount_Inl: "extract_amount data = Inl err \<Longrightarrow> err = NOT_PRIMITIVE"
  by (auto simp: extract_amount_def split: if_splits dest: parseFloat_Inl)

lemma callTrueMoneyAPI_Inr:
  assumes "callTrueMoneyAPI e h w = (Inr (amt, d), w1)"
  shows "fetch_reply e = HttpOk d \<and> read_response d = Inr (amt, d)"
proof -
  from assms obtain data where "fetch_reply e = HttpOk data" "read_response data = Inr (amt, d)"
    by (auto simp: callTrueMoneyAPI_def Let_def
        split: option.splits if_splits fetch_outcome.splits)
  with read_response_Inr[of data amt d] show ?thesis by simp
qed

lemma extract_amount_voucher_0: "extract_amount voucher_0 = Inr (Fin 0)"
proof -
  have "opt (opt (get voucher_0 (ascii ''data'')) (ascii ''voucher'')) (ascii ''amount_baht'')
          = JStr (ascii ''0'')"
    by (simp add: voucher_0_def opt_def ascii_def)
  then show ?thesis
    by (simp add: extract_amount_def parseFloat_def parseFloat_string_0) (simp add: ascii_def)
qed

lemma extract_amount_voucher_tiny: "extract_amount voucher_tiny = Inr (Fin 0)"
proof -
  have "opt (opt (get voucher_tiny (ascii ''data'')) (ascii ''voucher'')) (ascii ''amount_baht'')
          = JStr (ascii ''1e-324'')"
    by (simp add: voucher_tiny_def opt_def ascii_def)
  then show ?thesis
    by (simp add: extract_amount_def parseFloat_def parseFloat_string_tiny) (simp add: ascii_def)
qed

lemma extract_amount_voucher_object: "extract_amount voucher_object = Inl NOT_PRIMITIVE"
proof -
  have "opt (opt (get voucher_object (ascii ''data'')) (ascii ''voucher'')) (ascii ''amount_baht'')
          = JObj [(ascii ''toString'', JNum (Fin 1))]"
    by (simp add: voucher_object_def opt_def ascii_def)
  then show ?thesis
    by (simp add: extract_amount_def parseFloat_def)
qed

section \<open>The scenario of a successful donation\<close>

text \<open>
  Claim C1. A claim for the link \<^verbatim>\<open>https://x/campaign/?v=ABC123\<close> by the donor Alice, with the
  external response \<^verbatim>\<open>{ success: true, data: { voucher: { amount_baht: "50" } } }\<close> and a
  voucher hash that the ledger does not hold yet, is answered with success and a message
  that contains \<^verbatim>\<open>Alice\<close> and \<^verbatim>\<open>50\<close>; exactly one document is added to the ledger, with
  status \<open>Completed\<close> and amount 50, and one request is posted. The surroundings are those
  of the scenario: the account is configured, the store answers reads and writes, and the
  remaining fields of the claim pass the validators of the schema.
\<close>

theorem processDonation_alice_50:
  assumes link: "in_voucherLink c = Some (ascii ''https://x/campaign/?v=ABC123'')"
    and donor: "in_donorName c = ascii ''Alice''"
    and reply: "fetch_reply e = HttpOk voucher_50"
    and mobile: "TRUEMONEY_MOBILE e = Some mobile" "mobile \<noteq> []"
    and store: "read_fault e = None" "write_fault e = None"
    and ip: "in_ipAddress c \<noteq> []"
    and msg: "length (trim (in_message c)) \<le> 500"
    and fresh: "ascii ''ABC123'' \<notin> set (map voucherHash (ledger w))"
  shows "res_success (fst (processDonation c e w))
       \<and> res_message (fst (processDonation c e w))
           = THANKS_1 @ ascii ''Alice'' @ THANKS_2 @ ascii ''50'' @ THANKS_3
       \<and> sublist (ascii ''Alice'') (res_message (fst (processDonation c e w)))
       \<and> sublist (ascii ''50'') (res_message (fst (processDonation c e w)))
       \<and> (\<exists>d. ledger (snd (processDonation c e w)) = ledger w @ [d]
              \<and> status d = Completed \<and> amount d = Fin 50 \<and> voucherHash d = ascii ''ABC123'')
       \<and> api_calls (snd (processDonation c e w)) = api_calls w @ [(ascii ''ABC123'', mobile)]"
proof -
  let ?d = "new_Donation e (ascii ''Alice'') (Fin 50) (in_message c) (ascii ''ABC123'')
              (Some (ascii ''https://x/campaign/?v=ABC123'')) (in_ipAddress c) Completed"
  note pd = processDonation_voucher_50[OF assms]
  have s1: "sublist (ascii ''Alice'') (THANKS_1 @ ascii ''Alice'' @ THANKS_2 @ ascii ''50'' @ THANKS_3)"
    by (rule sublist_appendI)
  have "sublist (ascii ''50'') ((THANKS_1 @ ascii ''Alice'' @ THANKS_2) @ ascii ''50'' @ THANKS_3)"
    by (rule sublist_appendI)
  then have s2: "sublist (ascii ''50'') (THANKS_1 @ ascii ''Alice'' @ THANKS_2 @ ascii ''50'' @ THANKS_3)"
    by simp
  have led: "\<exists>d. ledger w @ [?d] = ledger w @ [d]
              \<and> status d = Completed \<and> amount d = Fin 50 \<and> voucherHash d = ascii ''ABC123''"
    by (rule exI[of _ ?d]) (simp add: new_Donation_def)
  show ?thesis
    unfolding pd using s1 s2 led by simp
qed

theorem processDonation_alice_50_witness:
  "res_success (fst (processDonation alice_claim working_env empty_world))
   \<and> sublist (ascii ''Alice'') (res_message (fst (processDonation alice_claim working_env empty_world)))
   \<and> sublist (ascii ''50'') (res_message (fst (processDonation alice_claim working_env empty_world)))
   \<and> (\<exists>d. ledger (snd (processDonation alice_claim working_env empty_world)) = [d]
          \<and> status d = Completed \<and> amount d = Fin 50)"
proof -
  have link: "in_voucherLink alice_claim = Some (ascii ''https://x/campaign/?v=ABC123'')"
    and donor: "in_donorName alice_claim = ascii ''Alice''"
    and ip: "in_ipAddress alice_claim \<noteq> []"
    by (simp_all add: alice_claim_def ascii_def)
  have msg: "length (trim (in_message alice_claim)) \<le> 500"
    by (simp add: alice_claim_def trim_def ascii_def white_space_def)
  have reply: "fetch_reply working_env = HttpOk voucher_50"
    and mobile: "TRUEMONEY_MOBILE working_env = Some (ascii ''0812345678'')"
    and store: "read_fault working_env = None" "write_fault working_env = None"
    by (simp_all add: working_env_def)
  have mne: "ascii ''0812345678'' \<noteq> []" by (simp add: ascii_def)
  have fresh: "ascii ''ABC123'' \<notin> set (map voucherHash (ledger empty_world))"
    by (simp add: empty_world_def)
  have led: "ledger empty_world = []" by (simp add: empty_world_def)
  from processDonation_alice_50[OF link donor reply mobile mne store ip msg fresh]
  show ?thesis unfolding led append_Nil by blast
qed

section \<open>Duplicate claims\<close>

text \<open>
  Claim C2. When the hash extracted from the link is the hash of a document of the ledger,
  \<open>processDonation\<close> returns a failed result and leaves the world as it was: no request
  is posted to the redemption endpoint. The message is the duplicate message of the source
  (\<open>MSG_DUPLICATE\<close>, in Thai) whenever the lookup in the store returns; when the lookup
  itself faults, the attempt fails with the fault's message. Two claims for the same link,
  one after the other, are not both answered with success, and the second one gets the
  duplicate result after a successful first one. The documents of the ledger keep distinct
  hashes, under \<open>processDonation\<close> and under every single write that the store accepts.
\<close>

theorem duplicate_voucher_rejected:
  "(extractVoucherHash (in_voucherLink c) = Inr h \<and> h \<in> set (map voucherHash (ledger w)) \<longrightarrow>
      \<not> res_success (fst (processDonation c e w))
      \<and> snd (processDonation c e w) = w
      \<and> (read_fault e = None \<longrightarrow>
           processDonation c e w =
             (\<lparr>res_success = False, res_message = MSG_DUPLICATE, res_data = None\<rparr>, w)))
   \<and> (in_voucherLink c2 = in_voucherLink c1 \<longrightarrow>
        \<not> (res_success (fst (processDonation c1 e1 w))
           \<and> res_success (fst (processDonation c2 e2 (snd (processDonation c1 e1 w)))))
        \<and> (res_success (fst (processDonation c1 e1 w)) \<and> read_fault e2 = None \<longrightarrow>
             processDonation c2 e2 (snd (processDonation c1 e1 w)) =
               (\<lparr>res_success = False, res_message = MSG_DUPLICATE, res_data = None\<rparr>,
                snd (processDonation c1 e1 w))))
   \<and> (distinct (map voucherHash (ledger w)) \<longrightarrow>
        distinct (map voucherHash (ledger (snd (processDonation c e w)))))
   \<and> (\<forall>d w'. distinct (map voucherHash (ledger w)) \<and> save e d w = Inr w' \<longrightarrow>
        distinct (map voucherHash (ledger w')))"
proof (intro conjI impI allI)
  assume a: "extractVoucherHash (in_voucherLink c) = Inr h \<and> h \<in> set (map voucherHash (ledger w))"
  then have h: "extractVoucherHash (in_voucherLink c) = Inr h"
    and d: "h \<in> set (map voucherHash (ledger w))" by simp_all
  from duplicate_fails[OF h d]
  show "\<not> res_success (fst (processDonation c e w))"
    and "snd (processDonation c e w) = w" by simp_all
  assume "read_fault e = None"
  with duplicate_fails[OF h d]
  show "processDonation c e w =
             (\<lparr>res_success = False, res_message = MSG_DUPLICATE, res_data = None\<rparr>, w)"
    by simp
next
  assume same: "in_voucherLink c2 = in_voucherLink c1"
  let ?w1 = "snd (processDonation c1 e1 w)"
  have second: "res_success (fst (processDonation c1 e1 w)) \<Longrightarrow>
      \<not> res_success (fst (processDonation c2 e2 ?w1))
      \<and> (read_fault e2 = None \<longrightarrow> processDonation c2 e2 ?w1 =
               (\<lparr>res_success = False, res_message = MSG_DUPLICATE, res_data = None\<rparr>, ?w1))"
  proof -
    assume "res_success (fst (processDonation c1 e1 w))"
    from processDonation_success[OF this] obtain h d where
      h: "extractVoucherHash (in_voucherLink c1) = Inr h"
      and led: "ledger ?w1 = ledger w @ [d]" and vh: "voucherHash d = h"
      by blast
    from h same have h2: "extractVoucherHash (in_voucherLink c2) = Inr h" by simp
    from led vh have "h \<in> set (map voucherHash (ledger ?w1))" by simp
    from duplicate_fails[OF h2 this] show ?thesis by simp
  qed
  from second show "\<not> (res_success (fst (processDonation c1 e1 w))
           \<and> res_success (fst (processDonation c2 e2 ?w1)))" by blast
  assume b: "res_success (fst (processDonation c1 e1 w)) \<and> read_fault e2 = None"
  then have b1: "res_success (fst (processDonation c1 e1 w))" and b2: "read_fault e2 = None"
    by simp_all
  from second[OF b1] b2 show "processDonation c2 e2 ?w1 =
               (\<lparr>res_success = False, res_message = MSG_DUPLICATE, res_data = None\<rparr>, ?w1)"
    by simp
next
  assume dist: "distinct (map voucherHash (ledger w))"
  show "distinct (map voucherHash (ledger (snd (processDonation c e w))))"
  proof (cases "res_success (fst (processDonation c e w))")
    case True
    from processDonation_success[OF True] obtain h d where
      "ledger (snd (processDonation c e w)) = ledger w @ [d]" "voucherHash d = h"
      "h \<notin> set (map voucherHash (ledger w))"
      by blast
    with dist show ?thesis by simp
  next
    case False
    from processDonation_failure[OF False] dist show ?thesis by simp
  qed
next
  fix d w'
  assume a: "distinct (map voucherHash (ledger w)) \<and> save e d w = Inr w'"
  then have sv: "save e d w = Inr w'" by simp
  from save_Inr[OF sv] a show "distinct (map voucherHash (ledger w'))" by simp
qed

theorem duplicate_voucher_rejected_witness:
  "res_success (fst (processDonation alice_claim working_env empty_world))
   \<and> processDonation alice_claim working_env
        (snd (processDonation alice_claim working_env empty_world))
      = (\<lparr>res_success = False, res_message = MSG_DUPLICATE, res_data = None\<rparr>,
         snd (processDonation alice_claim working_env empty_world))
   \<and> api_calls (snd (processDonation alice_claim working_env
        (snd (processDonation alice_claim working_env empty_world))))
      = [(ascii ''ABC123'', ascii ''0812345678'')]"
proof -
  let ?w1 = "snd (processDonation alice_claim working_env empty_world)"
  have store: "read_fault working_env = None"
    by (simp add: working_env_def)
  from alice_first_attempt
  have first: "res_success (fst (processDonation alice_claim working_env empty_world))"
    and calls: "api_calls ?w1 = [(ascii ''ABC123'', ascii ''0812345678'')]"
    by simp_all
  from duplicate_voucher_rejected[of alice_claim "ascii ''ABC123''" empty_world working_env
      alice_claim alice_claim working_env working_env]
  have "res_success (fst (processDonation alice_claim working_env empty_world))
          \<and> read_fault working_env = None \<longrightarrow>
        processDonation alice_claim working_env ?w1 =
          (\<lparr>res_success = False, res_message = MSG_DUPLICATE, res_data = None\<rparr>, ?w1)"
    by blast
  with first store have second: "processDonation alice_claim working_env ?w1 =
          (\<lparr>res_success = False, res_message = MSG_DUPLICATE, res_data = None\<rparr>, ?w1)"
    by blast
  from first second calls show ?thesis by simp
qed

section \<open>Which amount field is used\<close>

text \<open>
  Claim C4, as stated, fails: a nested voucher amount that is present but falsy does not
  win. For the response \<^verbatim>\<open>{ success: true, data: { voucher: { amount_baht: 0 } }, amount: 50 }\<close>
  the nested voucher amount is 0 and the top-level amount is 50; the extracted amount is 50,
  and the response is accepted with that amount.
\<close>

theorem nested_zero_amount_loses:
  "opt (opt (get voucher_0_amount_50 (ascii ''data'')) (ascii ''voucher'')) (ascii ''amount_baht'')
     = JNum (Fin 0)
   \<and> get voucher_0_amount_50 (ascii ''amount'') = JNum (Fin 50)
   \<and> parseFloat (JNum (Fin 0)) = Inr (Fin 0)
   \<and> extract_amount voucher_0_amount_50 = Inr (Fin 50)
   \<and> read_response voucher_0_amount_50 = Inr (Fin 50, voucher_0_amount_50)"
proof -
  have n: "opt (opt (get voucher_0_amount_50 (ascii ''data'')) (ascii ''voucher''))
             (ascii ''amount_baht'') = JNum (Fin 0)"
    by (simp add: voucher_0_amount_50_def opt_def ascii_def)
  have r: "opt (opt (get voucher_0_amount_50 (ascii ''data'')) (ascii ''voucher''))
             (ascii ''redeemed_amount_baht'') = JUndefined"
    by (simp add: voucher_0_amount_50_def opt_def ascii_def)
  have t: "opt (opt (get voucher_0_amount_50 (ascii ''data'')) (ascii ''my_ticket''))
             (ascii ''amount_baht'') = JUndefined"
    by (simp add: voucher_0_amount_50_def opt_def ascii_def)
  have b: "get voucher_0_amount_50 (ascii ''amount_bath'') = JUndefined"
    by (simp add: voucher_0_amount_50_def ascii_def)
  have a: "get voucher_0_amount_50 (ascii ''amount'') = JNum (Fin 50)"
    by (simp add: voucher_0_amount_50_def ascii_def)
  have x: "extract_amount voucher_0_amount_50 = Inr (Fin 50)"
    by (simp add: extract_amount_def n r t b a parseFloat_def)
  have z: "parseFloat (JNum (Fin 0)) = Inr (Fin 0)"
    by (simp add: parseFloat_def)
  have "get voucher_0_amount_50 (ascii ''success'') = JBool True"
    by (simp add: voucher_0_amount_50_def ascii_def)
  from success_flag[OF this] have "read_response voucher_0_amount_50 = Inr (Fin 50, voucher_0_amount_50)"
    by (simp add: read_response_amount[OF _ _ x])
  with n a x z show ?thesis by simp
qed

text \<open>
  Claim C4, amended. The extracted amount is \<^verbatim>\<open>parseFloat\<close> of the first truthy value among
  the probes, in the order nested voucher amount, nested voucher redeemed amount, nested
  alternate-ticket amount, top-level misspelled amount, top-level amount, top-level value,
  and 0 when none is truthy (a value that is absent, \<^verbatim>\<open>null\<close>, \<^verbatim>\<open>false\<close>, 0, \<^verbatim>\<open>NaN\<close> or the
  empty string is skipped). In particular a truthy nested voucher amount is the one used,
  whatever the other fields hold.
\<close>

theorem extract_amount_first_truthy:
  "extract_amount data =
     (case find truthy (amount_probes data) of
        Some v \<Rightarrow> parseFloat v
      | None \<Rightarrow> Inr (Fin 0))
   \<and> (truthy (opt (opt (get data (ascii ''data'')) (ascii ''voucher'')) (ascii ''amount_baht''))
        \<longrightarrow> extract_amount data
             = parseFloat (opt (opt (get data (ascii ''data'')) (ascii ''voucher''))
                            (ascii ''amount_baht'')))"
  by (simp add: extract_amount_def amount_probes_def)

theorem extract_amount_first_truthy_witness:
  "truthy (opt (opt (get voucher_50_amount_100 (ascii ''data'')) (ascii ''voucher''))
             (ascii ''amount_baht''))
   \<and> get voucher_50_amount_100 (ascii ''amount'') = JNum (Fin 100)
   \<and> extract_amount voucher_50_amount_100 = Inr (Fin 50)"
proof -
  have n: "opt (opt (get voucher_50_amount_100 (ascii ''data'')) (ascii ''voucher''))
             (ascii ''amount_baht'') = JStr (ascii ''50'')"
    by (simp add: voucher_50_amount_100_def opt_def ascii_def)
  have t: "truthy (opt (opt (get voucher_50_amount_100 (ascii ''data'')) (ascii ''voucher''))
             (ascii ''amount_baht''))"
    unfolding n by (simp add: ascii_def)
  have a: "get voucher_50_amount_100 (ascii ''amount'') = JNum (Fin 100)"
    by (simp add: voucher_50_amount_100_def ascii_def)
  from extract_amount_first_truthy[of voucher_50_amount_100] t
  have "extract_amount voucher_50_amount_100
          = parseFloat (opt (opt (get voucher_50_amount_100 (ascii ''data'')) (ascii ''voucher''))
                            (ascii ''amount_baht''))"
    by blast
  then have "extract_amount voucher_50_amount_100 = Inr (Fin 50)"
    unfolding n by (simp add: parseFloat_def parseFloat_string_50)
  with t a show ?thesis by simp
qed

section \<open>Amounts that are not positive\<close>

text \<open>
  Claim C5, as stated, fails for an amount that cannot even be converted to a string. For
  the response \<^verbatim>\<open>{ success: true, data: { voucher: { amount_baht: { toString: 1 } } } }\<close> the
  amount field is truthy, \<^verbatim>\<open>parseFloat\<close> of it throws a TypeError, and the client fails with
  that TypeError, which its handler rethrows as it is, and not with \<open>InvalidAmount\<close>.
\<close>

theorem object_amount_throws:
  "get voucher_object (ascii ''success'') = JBool True
   \<and> read_response voucher_object
       = Inl (TypeError (ascii ''Cannot convert object to primitive value''))
   \<and> fst (callTrueMoneyAPI (working_env\<lparr>fetch_reply := HttpOk voucher_object\<rparr>)
            (ascii ''ABC123'') empty_world)
       = Inl (TypeError (ascii ''Cannot convert object to primitive value''))
   \<and> read_response voucher_object \<noteq> Inl InvalidAmount"
proof -
  have flag: "get voucher_object (ascii ''success'') = JBool True"
    by (simp add: voucher_object_def ascii_def)
  from success_flag[OF flag] have ok: "\<not> nullish voucher_object" "isSuccess voucher_object"
    by simp_all
  have r: "read_response voucher_object = Inl NOT_PRIMITIVE"
    by (rule read_response_throws[OF ok extract_amount_voucher_object])
  have "fst (callTrueMoneyAPI (working_env\<lparr>fetch_reply := HttpOk voucher_object\<rparr>)
            (ascii ''ABC123'') empty_world) = Inl NOT_PRIMITIVE"
    by (simp add: callTrueMoneyAPI_def working_env_def r) (simp add: ascii_def)
  with flag r show ?thesis by (simp add: NOT_PRIMITIVE_def)
qed

text \<open>
  Claim C5, amended. When the response counts as a success, in particular when its
  \<^verbatim>\<open>success\<close> flag is \<^verbatim>\<open>true\<close>, and the extracted amount is a number that is not greater than
  zero (zero, negative, or \<^verbatim>\<open>NaN\<close> from a text that does not parse), the client fails with
  \<open>InvalidAmount\<close>. When the extraction itself throws, because the amount field cannot be
  converted to a string, the client fails with the TypeError of that conversion. Whenever
  \<open>callTrueMoneyAPI\<close> returns a result, its amount is the extracted amount of the response
  and is greater than zero.
\<close>

theorem invalid_amount_rejected:
  "(\<not> nullish data \<and> isSuccess data \<and> extract_amount data = Inr a \<and> \<not> num_pos a \<longrightarrow>
      read_response data = Inl InvalidAmount)
   \<and> (get data (ascii ''success'') = JBool True \<and> extract_amount data = Inr a \<and> \<not> num_pos a \<longrightarrow>
      read_response data = Inl InvalidAmount)
   \<and> (TRUEMONEY_MOBILE e = Some mobile \<and> mobile \<noteq> [] \<and> fetch_reply e = HttpOk data
       \<and> get data (ascii ''success'') = JBool True
       \<and> extract_amount data = Inr a \<and> \<not> num_pos a \<longrightarrow>
      fst (callTrueMoneyAPI e h w) = Inl InvalidAmount)
   \<and> (\<not> nullish data \<and> isSuccess data \<and> extract_amount data = Inl err \<longrightarrow>
      err = NOT_PRIMITIVE \<and> read_response data = Inl NOT_PRIMITIVE)
   \<and> (\<forall>amt d w1. callTrueMoneyAPI e h w = (Inr (amt, d), w1) \<longrightarrow>
        num_pos amt \<and> extract_amount d = Inr amt \<and> fetch_reply e = HttpOk d)"
proof (intro conjI impI allI)
  assume "\<not> nullish data \<and> isSuccess data \<and> extract_amount data = Inr a \<and> \<not> num_pos a"
  then show "read_response data = Inl InvalidAmount"
    by (simp add: read_response_amount)
next
  assume a: "get data (ascii ''success'') = JBool True \<and> extract_amount data = Inr a
               \<and> \<not> num_pos a"
  with success_flag[of data] show "read_response data = Inl InvalidAmount"
    by (simp add: read_response_amount)
next
  assume a: "TRUEMONEY_MOBILE e = Some mobile \<and> mobile \<noteq> [] \<and> fetch_reply e = HttpOk data
       \<and> get data (ascii ''success'') = JBool True
       \<and> extract_amount data = Inr a \<and> \<not> num_pos a"
  with success_flag[of data] have "read_response data = Inl InvalidAmount"
    by (simp add: read_response_amount)
  with a show "fst (callTrueMoneyAPI e h w) = Inl InvalidAmount"
    by (simp add: callTrueMoneyAPI_def Let_def)
next
  assume a: "\<not> nullish data \<and> isSuccess data \<and> extract_amount data = Inl err"
  then have x: "extract_amount data = Inl err" by simp
  from extract_amount_Inl[OF x] show e: "err = NOT_PRIMITIVE" .
  from a have "read_response data = Inl err"
    by (simp add: read_response_throws)
  with e show "read_response data = Inl NOT_PRIMITIVE" by simp
next
  fix amt d w1
  assume a: "callTrueMoneyAPI e h w = (Inr (amt, d), w1)"
  from callTrueMoneyAPI_Inr[OF a] have f: "fetch_reply e = HttpOk d"
    and r: "read_response d = Inr (amt, d)" by simp_all
  from read_response_Inr[OF r] f show "num_pos amt" and "extract_amount d = Inr amt"
    and "fetch_reply e = HttpOk d" by blast+
qed

theorem invalid_amount_rejected_witness:
  "fst (callTrueMoneyAPI (working_env\<lparr>fetch_reply := HttpOk voucher_0\<rparr>) (ascii ''ABC123'')
          empty_world) = Inl InvalidAmount
   \<and> extract_amount voucher_tiny = Inr (Fin 0)
   \<and> read_response voucher_tiny = Inl InvalidAmount
   \<and> read_response voucher_object = Inl NOT_PRIMITIVE
   \<and> fst (callTrueMoneyAPI working_env (ascii ''ABC123'') empty_world) = Inr (Fin 50, voucher_50)
   \<and> num_pos (Fin 50) \<and> extract_amount voucher_50 = Inr (Fin 50)"
proof -
  let ?e = "working_env\<lparr>fetch_reply := HttpOk voucher_0\<rparr>"
  have flag: "get voucher_0 (ascii ''success'') = JBool True"
    by (simp add: voucher_0_def ascii_def)
  have np: "\<not> num_pos (Fin 0)" by simp
  have env: "TRUEMONEY_MOBILE ?e = Some (ascii ''0812345678'')" "ascii ''0812345678'' \<noteq> []"
    "fetch_reply ?e = HttpOk voucher_0"
    by (simp_all add: working_env_def ascii_def)
  from invalid_amount_rejected[of voucher_0 "Fin 0" ?e "ascii ''0812345678''" "ascii ''ABC123''"
      empty_world]
  have "TRUEMONEY_MOBILE ?e = Some (ascii ''0812345678'') \<and> ascii ''0812345678'' \<noteq> []
        \<and> fetch_reply ?e = HttpOk voucher_0
        \<and> get voucher_0 (ascii ''success'') = JBool True
        \<and> extract_amount voucher_0 = Inr (Fin 0) \<and> \<not> num_pos (Fin 0) \<longrightarrow>
        fst (callTrueMoneyAPI ?e (ascii ''ABC123'') empty_world) = Inl InvalidAmount"
    by blast
  with flag np env extract_amount_voucher_0
  have 1: "fst (callTrueMoneyAPI ?e (ascii ''ABC123'') empty_world) = Inl InvalidAmount"
    by blast
  have tflag: "get voucher_tiny (ascii ''success'') = JBool True"
    by (simp add: voucher_tiny_def ascii_def)
  from invalid_amount_rejected[of voucher_tiny "Fin 0"]
  have "get voucher_tiny (ascii ''success'') = JBool True
        \<and> extract_amount voucher_tiny = Inr (Fin 0) \<and> \<not> num_pos (Fin 0) \<longrightarrow>
        read_response voucher_tiny = Inl InvalidAmount"
    by blast
  with tflag np extract_amount_voucher_tiny
  have 2: "read_response voucher_tiny = Inl InvalidAmount" by blast
  have oflag: "get voucher_object (ascii ''success'') = JBool True"
    by (simp add: voucher_object_def ascii_def)
  from invalid_amount_rejected[of voucher_object _ _ _ _ _ NOT_PRIMITIVE]
  have "\<not> nullish voucher_object \<and> isSuccess voucher_object
        \<and> extract_amount voucher_object = Inl NOT_PRIMITIVE \<longrightarrow>
        read_response voucher_object = Inl NOT_PRIMITIVE"
    by blast
  with success_flag[OF oflag] extract_amount_voucher_object
  have 3: "read_response voucher_object = Inl NOT_PRIMITIVE" by blast
  have api: "callTrueMoneyAPI working_env (ascii ''ABC123'') empty_world
          = (Inr (Fin 50, voucher_50),
             empty_world\<lparr>api_calls := [(ascii ''ABC123'', ascii ''0812345678'')]\<rparr>)"
    by (simp add: callTrueMoneyAPI_def working_env_def read_response_voucher_50 empty_world_def)
       (simp add: ascii_def)
  from invalid_amount_rejected[of _ _ working_env _ "ascii ''ABC123''" empty_world]
  have "callTrueMoneyAPI working_env (ascii ''ABC123'') empty_world
          = (Inr (Fin 50, voucher_50),
             empty_world\<lparr>api_calls := [(ascii ''ABC123'', ascii ''0812345678'')]\<rparr>) \<longrightarrow>
        num_pos (Fin 50) \<and> extract_amount voucher_50 = Inr (Fin 50)"
    by blast
  with api have 4: "num_pos (Fin 50) \<and> extract_amount voucher_50 = Inr (Fin 50)" by blast
  from 1 2 3 4 api extract_amount_voucher_tiny show ?thesis by simp
qed

section \<open>Statistics\<close>

text \<open>
  Claim C6. Over a ledger without completed documents, the empty ledger included,
  \<open>getDonationStats\<close> returns the object whose numeric fields are all zero and whose last
  donation is absent; it returns the same object whenever the aggregation of the store
  fails, so that no error of the read reaches the caller.
\<close>

theorem getDonationStats_zero:
  "((\<forall>d \<in> set (ledger w). status d \<noteq> Completed) \<longrightarrow> getDonationStats e w = zero_stats)
   \<and> (\<forall>err. aggregate e w = Inl err \<longrightarrow> getDonationStats e w = zero_stats)
   \<and> (read_fault e \<noteq> None \<longrightarrow> getDonationStats e w = zero_stats)
   \<and> zero_stats = \<lparr>totalAmount = Fin 0, totalDonations = 0, averageAmount = Fin 0,
                    topDonation = Fin 0, lastDonation = None\<rparr>"
proof (intro conjI impI allI)
  assume "\<forall>d \<in> set (ledger w). status d \<noteq> Completed"
  then have "filter (\<lambda>d. status d = Completed) (ledger w) = []"
    by (simp add: filter_empty_conv)
  then show "getDonationStats e w = zero_stats"
    by (simp add: getDonationStats_def aggregate_def split: option.splits)
next
  fix err
  assume "aggregate e w = Inl err"
  then show "getDonationStats e w = zero_stats"
    by (simp add: getDonationStats_def)
next
  assume "read_fault e \<noteq> None"
  then show "getDonationStats e w = zero_stats"
    by (auto simp: getDonationStats_def aggregate_def)
next
  show "zero_stats = \<lparr>totalAmount = Fin 0, totalDonations = 0, averageAmount = Fin 0,
                    topDonation = Fin 0, lastDonation = None\<rparr>"
    by (simp add: zero_stats_def)
qed

theorem getDonationStats_zero_witness:
  "getDonationStats working_env empty_world = zero_stats
   \<and> getDonationStats read_fault_env one_donation_world = zero_stats
   \<and> getDonationStats working_env one_donation_world \<noteq> zero_stats"
proof -
  have a: "\<forall>d \<in> set (ledger empty_world). status d \<noteq> Completed"
    by (simp add: empty_world_def)
  have b: "read_fault read_fault_env \<noteq> None"
    by (simp add: read_fault_env_def)
  from getDonationStats_zero[of empty_world working_env] a
  have 1: "getDonationStats working_env empty_world = zero_stats" by blast
  from getDonationStats_zero[of one_donation_world read_fault_env] b
  have 2: "getDonationStats read_fault_env one_donation_world = zero_stats" by blast
  have 3: "getDonationStats working_env one_donation_world \<noteq> zero_stats"
    by (simp add: getDonationStats_def aggregate_def working_env_def one_donation_world_def
        zero_stats_def)
  from 1 2 3 show ?thesis by simp
qed

section \<open>Failed attempts\<close>

text \<open>
  Claim C7 does not hold of the code. For the claim of Alice when the outbound call runs into
  the timeout, \<open>processDonation\<close> returns the failed result with the timeout message, the
  request has been posted, and the ledger is still empty: no document with status \<open>Failed\<close>
  is written. The handler never reaches \<^verbatim>\<open>save\<close>, because building the document calls
  \<^verbatim>\<open>catch\<close> on the string that \<open>extractVoucherHash\<close> returns.
\<close>

theorem failed_attempt_not_recorded:
  "processDonation alice_claim timeout_env empty_world
     = (\<lparr>res_success = False, res_message = MSG_TIMEOUT, res_data = None\<rparr>,
        empty_world\<lparr>api_calls := [(ascii ''ABC123'', ascii ''0812345678'')]\<rparr>)
   \<and> ledger (snd (processDonation alice_claim timeout_env empty_world)) = []"
proof -
  have rf: "read_fault timeout_env = None"
    by (simp add: timeout_env_def working_env_def)
  have api: "callTrueMoneyAPI timeout_env (ascii ''ABC123'') empty_world
               = (Inl UpstreamTimeout,
                  empty_world\<lparr>api_calls := [(ascii ''ABC123'', ascii ''0812345678'')]\<rparr>)"
    by (simp add: callTrueMoneyAPI_def timeout_env_def working_env_def empty_world_def)
       (simp add: ascii_def)
  have "processDonation_try alice_claim timeout_env empty_world
          = (Inl UpstreamTimeout,
             empty_world\<lparr>api_calls := [(ascii ''ABC123'', ascii ''0812345678'')]\<rparr>)"
    by (simp add: processDonation_try_def alice_hash alice_not_duplicate[OF rf] api)
  from processDonation_handler[OF this]
  show ?thesis by (simp add: error_message_def empty_world_def)
qed

section \<open>Outcomes of the pipeline\<close>

text \<open>
  Claim C8, as stated, fails on the success path: when the redemption has succeeded and the
  write of the completed document fails, the caller gets a failed result with the message
  of the write error.
\<close>

theorem write_failure_overturns_success:
  "fst (callTrueMoneyAPI write_fault_env (ascii ''ABC123'') empty_world) = Inr (Fin 50, voucher_50)
   \<and> res_success (fst (processDonation alice_claim write_fault_env empty_world)) = False
   \<and> res_message (fst (processDonation alice_claim write_fault_env empty_world))
       = ascii ''connection closed''"
proof -
  note t = try_save_failure[OF alice_hash alice_not_duplicate[OF write_fault_no_read_fault]
      write_fault_api write_fault_save]
  from processDonation_handler[OF t] write_fault_api
  show ?thesis by (simp add: error_message_def)
qed

text \<open>
  Claim C8, amended. \<open>processDonation\<close> always returns a result with a success flag and
  a message. An error of the locator, of the duplicate check or of the redemption client
  gives the failed result with the message of that error, whatever happens to the attempt
  to record the failure. When the redemption has succeeded, the result follows the write of
  the completed document: success with the donor's name and the amount in the message when
  the write succeeds, and the failed result with the message of the write error when it
  fails.
\<close>

theorem processDonation_outcome:
  "(\<forall>err. extractVoucherHash (in_voucherLink c) = Inl err \<longrightarrow>
       processDonation c e w = (failed_result err, w))
   \<and> (\<forall>h err. extractVoucherHash (in_voucherLink c) = Inr h
         \<and> isDuplicateVoucher e h w = Inl err \<longrightarrow>
       processDonation c e w = (failed_result err, w))
   \<and> (\<forall>h. extractVoucherHash (in_voucherLink c) = Inr h
         \<and> isDuplicateVoucher e h w = Inr True \<longrightarrow>
       processDonation c e w = (failed_result DuplicateVoucher, w))
   \<and> (\<forall>h err w1. extractVoucherHash (in_voucherLink c) = Inr h
         \<and> isDuplicateVoucher e h w = Inr False
         \<and> callTrueMoneyAPI e h w = (Inl err, w1) \<longrightarrow>
       processDonation c e w = (failed_result err, w1))
   \<and> (\<forall>h amt apiData w1 err. extractVoucherHash (in_voucherLink c) = Inr h
         \<and> isDuplicateVoucher e h w = Inr False
         \<and> callTrueMoneyAPI e h w = (Inr (amt, apiData), w1)
         \<and> save e (new_Donation e (in_donorName c) amt (in_message c) h (in_voucherLink c)
                      (in_ipAddress c) Completed) w1 = Inl err \<longrightarrow>
       processDonation c e w = (failed_result err, w1))
   \<and> (\<forall>h amt apiData w1 w2. extractVoucherHash (in_voucherLink c) = Inr h
         \<and> isDuplicateVoucher e h w = Inr False
         \<and> callTrueMoneyAPI e h w = (Inr (amt, apiData), w1)
         \<and> save e (new_Donation e (in_donorName c) amt (in_message c) h (in_voucherLink c)
                      (in_ipAddress c) Completed) w1 = Inr w2 \<longrightarrow>
       res_success (fst (processDonation c e w))
       \<and> res_message (fst (processDonation c e w))
           = THANKS_1 @ in_donorName c @ THANKS_2 @ toLocaleString amt @ THANKS_3)"
proof (intro conjI allI impI)
  fix err
  assume "extractVoucherHash (in_voucherLink c) = Inl err"
  then have "processDonation_try c e w = (Inl err, w)"
    by (simp add: processDonation_try_def)
  from processDonation_handler[OF this]
  show "processDonation c e w = (failed_result err, w)" by (simp add: failed_result_def)
next
  fix h err
  assume "extractVoucherHash (in_voucherLink c) = Inr h \<and> isDuplicateVoucher e h w = Inl err"
  then have "processDonation_try c e w = (Inl err, w)"
    by (simp add: processDonation_try_def)
  from processDonation_handler[OF this]
  show "processDonation c e w = (failed_result err, w)" by (simp add: failed_result_def)
next
  fix h
  assume "extractVoucherHash (in_voucherLink c) = Inr h \<and> isDuplicateVoucher e h w = Inr True"
  then have "processDonation_try c e w = (Inl DuplicateVoucher, w)"
    by (simp add: processDonation_try_def)
  from processDonation_handler[OF this]
  show "processDonation c e w = (failed_result DuplicateVoucher, w)"
    by (simp add: failed_result_def)
next
  fix h err w1
  assume "extractVoucherHash (in_voucherLink c) = Inr h \<and> isDuplicateVoucher e h w = Inr False
            \<and> callTrueMoneyAPI e h w = (Inl err, w1)"
  then have "processDonation_try c e w = (Inl err, w1)"
    by (simp add: processDonation_try_def)
  from processDonation_handler[OF this]
  show "processDonation c e w = (failed_result err, w1)" by (simp add: failed_result_def)
next
  fix h amt apiData w1 err
  assume a: "extractVoucherHash (in_voucherLink c) = Inr h \<and> isDuplicateVoucher e h w = Inr False
            \<and> callTrueMoneyAPI e h w = (Inr (amt, apiData), w1)
            \<and> save e (new_Donation e (in_donorName c) amt (in_message c) h (in_voucherLink c)
                      (in_ipAddress c) Completed) w1 = Inl err"
  then have h: "extractVoucherHash (in_voucherLink c) = Inr h"
    and dup: "isDuplicateVoucher e h w = Inr False"
    and api: "callTrueMoneyAPI e h w = (Inr (amt, apiData), w1)"
    and sv: "save e (new_Donation e (in_donorName c) amt (in_message c) h (in_voucherLink c)
                      (in_ipAddress c) Completed) w1 = Inl err"
    by simp_all
  have "processDonation_try c e w = (Inl err, w1)"
    by (rule try_save_failure[OF h dup api sv])
  from processDonation_handler[OF this]
  show "processDonation c e w = (failed_result err, w1)" by (simp add: failed_result_def)
next
  fix h amt apiData w1 w2
  assume a: "extractVoucherHash (in_voucherLink c) = Inr h \<and> isDuplicateVoucher e h w = Inr False
            \<and> callTrueMoneyAPI e h w = (Inr (amt, apiData), w1)
            \<and> save e (new_Donation e (in_donorName c) amt (in_message c) h (in_voucherLink c)
                      (in_ipAddress c) Completed) w1 = Inr w2"
  then have h: "extractVoucherHash (in_voucherLink c) = Inr h"
    and dup: "isDuplicateVoucher e h w = Inr False"
    and api: "callTrueMoneyAPI e h w = (Inr (amt, apiData), w1)"
    and sv: "save e (new_Donation e (in_donorName c) amt (in_message c) h (in_voucherLink c)
                      (in_ipAddress c) Completed) w1 = Inr w2"
    by simp_all
  note pd = processDonation_ok[OF try_success_intro[OF h dup api sv]]
  show "res_success (fst (processDonation c e w))" unfolding pd by simp
  show "res_message (fst (processDonation c e w))
           = THANKS_1 @ in_donorName c @ THANKS_2 @ toLocaleString amt @ THANKS_3"
    unfolding pd by simp
qed

theorem processDonation_outcome_witness:
  "processDonation alice_claim write_fault_env empty_world
     = (failed_result (PersistenceFailure StoreFault (ascii ''connection closed'')),
        empty_world\<lparr>api_calls := [(ascii ''ABC123'', ascii ''0812345678'')]\<rparr>)"
proof -
  from processDonation_outcome[of alice_claim write_fault_env empty_world]
  have "\<forall>h amt apiData w1 err.
          extractVoucherHash (in_voucherLink alice_claim) = Inr h
          \<and> isDuplicateVoucher write_fault_env h empty_world = Inr False
          \<and> callTrueMoneyAPI write_fault_env h empty_world = (Inr (amt, apiData), w1)
          \<and> save write_fault_env
               (new_Donation write_fault_env (in_donorName alice_claim) amt
                  (in_message alice_claim) h (in_voucherLink alice_claim)
                  (in_ipAddress alice_claim) Completed) w1 = Inl err \<longrightarrow>
          processDonation alice_claim write_fault_env empty_world = (failed_result err, w1)"
    by blast
  with alice_hash alice_not_duplicate[OF write_fault_no_read_fault] write_fault_api
    write_fault_save
  have "processDonation alice_claim write_fault_env empty_world
          = (failed_result (PersistenceFailure StoreFault (ascii ''connection closed'')),
             empty_world\<lparr>api_calls := api_calls empty_world
                            @ [(ascii ''ABC123'', ascii ''0812345678'')]\<rparr>)"
    by blast
  then show ?thesis by (simp add: empty_world_def)
qed

section \<open>Recent donations\<close>

text \<open>
  Claim C9. When the read of the store faults, \<open>getRecentDonations\<close> returns the empty
  list for every limit; the error does not reach the caller.
\<close>

theorem getRecentDonations_read_fault:
  "(read_fault e = Some m \<longrightarrow> getRecentDonations e limit w = [])
   \<and> (\<forall>err. find_recent e n w = Inl err \<longrightarrow> getRecentDonations e (Some n) w = [])"
  by (simp add: getRecentDonations_def find_recent_def)

theorem getRecentDonations_read_fault_witness:
  "getRecentDonations read_fault_env (Some 5) one_donation_world = []
   \<and> getRecentDonations working_env (Some 5) one_donation_world
       = [\<lparr>r_donorName = ascii ''Alice'', r_amount = Fin 50, r_message = ascii ''hello'',
           r_timestamp = 1700000000000\<rparr>]"
proof -
  have "read_fault read_fault_env = Some (ascii ''connection closed'')"
    by (simp add: read_fault_env_def)
  with getRecentDonations_read_fault[of read_fault_env "ascii ''connection closed''" "Some 5"
      one_donation_world]
  have 1: "getRecentDonations read_fault_env (Some 5) one_donation_world = []" by blast
  have 2: "getRecentDonations working_env (Some 5) one_donation_world
       = [\<lparr>r_donorName = ascii ''Alice'', r_amount = Fin 50, r_message = ascii ''hello'',
           r_timestamp = 1700000000000\<rparr>]"
    by (simp add: getRecentDonations_def find_recent_def working_env_def one_donation_world_def
        apply_limit_def)
  from 1 2 show ?thesis by simp
qed

end
